theory Spec2Isabelle
  imports Complex_Main "HOL-Library.Multiset"
begin

section \<open>Randomness\<close>

text \<open>
  The engine, the element behaviours and the reactions call \<^verbatim>\<open>Math.random()\<close>, which
  returns a number in the half-open interval from 0 to 1. A draw is a real number of that
  interval, and the random source is the infinite sequence of the draws still to come:
  \<open>rhead\<close> is the next call's result, \<open>rtail\<close> the source after that call. Every function
  that draws takes the source and returns what is left of it, so the order of the calls to
  \<^verbatim>\<open>Math.random()\<close> in the JavaScript is the order of the draws here.

  The counters (\<^verbatim>\<open>life\<close>, \<^verbatim>\<open>burning\<close>) hold integers and are \<open>int\<close>; the draws and the
  probabilities they are compared with are \<open>real\<close>. The corrosion accumulator is a
  JavaScript number that grows by repeated additions of 0.1: it is modelled as an IEEE 754
  double, with the rounding of every addition (section "JavaScript numbers").
\<close>

typedef draw = "{v::real. 0 \<le> v \<and> v < 1}"
  by (rule exI[of _ 0]) simp

type_synonym rnd = "nat \<Rightarrow> draw"

definition rhead :: "rnd \<Rightarrow> real" where
  "rhead r = Rep_draw (r 0)"

definition rtail :: "rnd \<Rightarrow> rnd" where
  "rtail r = (\<lambda>n. r (Suc n))"

text \<open>\<^verbatim>\<open>Utils.randomInt(min, max)\<close>: \<^verbatim>\<open>Math.floor(Math.random() * (max - min + 1)) + min\<close>.\<close>

definition randomInt :: "int \<Rightarrow> int \<Rightarrow> rnd \<Rightarrow> int \<times> rnd" where
  "randomInt lo hi r = (\<lfloor>rhead r * of_int (hi - lo + 1)\<rfloor> + lo, rtail r)"

text \<open>\<^verbatim>\<open>Utils.randomElement(array)\<close>: \<^verbatim>\<open>array[Math.floor(Math.random() * array.length)]\<close>.
  Every caller checks that the array is not empty, and then the index is in range
  (lemma \<open>randomIndex_less\<close>).\<close>

definition randomIndex :: "nat \<Rightarrow> rnd \<Rightarrow> nat" where
  "randomIndex n r = nat \<lfloor>rhead r * real n\<rfloor>"

definition randomElement :: "'a list \<Rightarrow> rnd \<Rightarrow> 'a \<times> rnd" where
  "randomElement xs r = (xs ! randomIndex (length xs) r, rtail r)"

section \<open>JavaScript numbers\<close>

text \<open>
  A JavaScript number is an IEEE 754 binary64 value: a finite double \<open>Num x\<close>, where
  \<open>x\<close> is the real number it stands for, one of the two infinities, or NaN. The two
  zeros are both \<open>Num 0\<close>: they differ in no operation modelled here.
\<close>

datatype jsnum = Num real | PosInfinity | NegInfinity | NaN

definition pow2 :: "int \<Rightarrow> real" where
  "pow2 k = (if 0 \<le> k then 2 ^ nat k else 1 / 2 ^ nat (- k))"

text \<open>The binade of a positive real \<open>a\<close>: the integer \<open>e\<close> with \<open>2^e \<le> a < 2^(e+1)\<close>, found by
  halving (from 1 up) or doubling (below 1).\<close>

function binadeUp :: "real \<Rightarrow> int" where
  "binadeUp a = (if a < 2 then 0 else binadeUp (a / 2) + 1)"
  by pat_completeness auto
termination
proof (relation "measure (\<lambda>a. nat \<lceil>a\<rceil>)")
  show "wf (measure (\<lambda>a::real. nat \<lceil>a\<rceil>))" by simp
next
  fix a :: real assume na: "\<not> a < 2"
  then have "a / 2 \<le> a - 1" by simp
  then have "\<lceil>a / 2\<rceil> \<le> \<lceil>a - 1\<rceil>" by (rule ceiling_mono)
  moreover have "\<lceil>a - 1\<rceil> = \<lceil>a\<rceil> - 1" by simp
  moreover have "a \<le> of_int \<lceil>a\<rceil>" by (rule le_of_int_ceiling)
  then have "0 < \<lceil>a\<rceil>" using na by linarith
  ultimately show "(a / 2, a) \<in> measure (\<lambda>a. nat \<lceil>a\<rceil>)" by simp
qed

function binadeDown :: "real \<Rightarrow> int" where
  "binadeDown a = (if a \<le> 0 \<or> 1 \<le> a then 0 else binadeDown (a * 2) - 1)"
  by pat_completeness auto
termination
proof (relation "measure (\<lambda>a. nat \<lceil>1 / a\<rceil>)")
  show "wf (measure (\<lambda>a::real. nat \<lceil>1 / a\<rceil>))" by simp
next
  fix a :: real assume "\<not> (a \<le> 0 \<or> 1 \<le> a)"
  then have a: "0 < a" "a < 1" by simp_all
  have t: "1 < 1 / a" using a by simp
  have up: "1 / a \<le> of_int \<lceil>1 / a\<rceil>" by (rule le_of_int_ceiling)
  have c: "\<lceil>1 / (a * 2)\<rceil> < \<lceil>1 / a\<rceil>"
  proof (cases "2 \<le> 1 / a")
    case True
    then have "1 / (a * 2) \<le> 1 / a - 1" using a by (simp add: field_simps)
    then have "\<lceil>1 / (a * 2)\<rceil> \<le> \<lceil>1 / a - 1\<rceil>" by (rule ceiling_mono)
    then show ?thesis by simp
  next
    case False
    from False have "1 / a < 2" by simp
    then have "1 < a * 2" using a by (simp add: field_simps)
    then have "1 / (a * 2) \<le> 1" using a by (simp add: field_simps)
    then have "\<lceil>1 / (a * 2)\<rceil> \<le> 1" by (simp add: ceiling_le_iff)
    moreover have "1 < \<lceil>1 / a\<rceil>" using t up by linarith
    ultimately show ?thesis by linarith
  qed
  moreover have "0 < \<lceil>1 / a\<rceil>" using t up by linarith
  ultimately show "(a * 2, a) \<in> measure (\<lambda>a. nat \<lceil>1 / a\<rceil>)" by simp
qed

definition binade :: "real \<Rightarrow> int" where
  "binade a = (if 1 \<le> a then binadeUp a else binadeDown a)"

text \<open>Rounding to the nearest integer, a tie going to the even one.\<close>

definition roundHalfEven :: "real \<Rightarrow> int" where
  "roundHalfEven t =
     (let f = \<lfloor>t\<rfloor>
      in if t - of_int f < 1/2 then f
         else if 1/2 < t - of_int f then f + 1
         else if even f then f else f + 1)"

text \<open>
  The double nearest to a real, ties to even (the rounding of every JavaScript
  arithmetic operation). A double has 53 significant bits, so the spacing of the doubles
  in the binade \<open>e\<close> is \<open>2^(e - 52)\<close>; below \<open>2^(-1022)\<close> the spacing stays \<open>2^(-1074)\<close>; a
  result that rounds to \<open>2^1024\<close> or more is an infinity.
\<close>

definition roundDouble :: "real \<Rightarrow> jsnum" where
  "roundDouble x =
     (if x = 0 then Num 0
      else let a = \<bar>x\<bar>;
               ulp = pow2 (max (binade a) (- 1022) - 52);
               r = of_int (roundHalfEven (a / ulp)) * ulp
           in if pow2 1024 \<le> r then (if 0 < x then PosInfinity else NegInfinity)
              else Num (if 0 < x then r else - r))"

text \<open>The sum of two numbers.\<close>

fun jsPlus :: "jsnum \<Rightarrow> jsnum \<Rightarrow> jsnum" where
  "jsPlus (Num x) (Num y) = roundDouble (x + y)"
| "jsPlus NaN _ = NaN"
| "jsPlus _ NaN = NaN"
| "jsPlus PosInfinity NegInfinity = NaN"
| "jsPlus NegInfinity PosInfinity = NaN"
| "jsPlus PosInfinity _ = PosInfinity"
| "jsPlus _ PosInfinity = PosInfinity"
| "jsPlus NegInfinity _ = NegInfinity"
| "jsPlus _ NegInfinity = NegInfinity"

declare jsPlus.simps [simp del] binadeUp.simps [simp del] binadeDown.simps [simp del]

text \<open>The double that the literal \<^verbatim>\<open>0.1\<close> denotes: 3602879701896397 / 2^55.\<close>

definition tenth :: real where
  "tenth = 3602879701896397 / 36028797018963968"

text \<open>\<^verbatim>\<open>!n\<close> for a number, and \<^verbatim>\<open>n >= 1\<close>.\<close>

definition jsFalsy :: "jsnum \<Rightarrow> bool" where
  "jsFalsy n \<longleftrightarrow> n = Num 0 \<or> n = NaN"

definition jsAtLeastOne :: "jsnum \<Rightarrow> bool" where
  "jsAtLeastOne n = (case n of Num x \<Rightarrow> 1 \<le> x | PosInfinity \<Rightarrow> True | _ \<Rightarrow> False)"

section \<open>Data model\<close>

text \<open>
  A particle is a JavaScript object; a field the object does not have (\<^verbatim>\<open>undefined\<close>) is
  \<open>None\<close>. The \<^verbatim>\<open>burning\<close> field holds the counter of the fire+wood reaction, or the
  string the fire behaviour writes when it ignites wood.
\<close>

datatype burnval = BNum int | BStr string

record particle =
  ptype :: string
  px :: int
  py :: int
  vx :: "int option"
  vy :: "int option"
  updated :: bool
  life :: "int option"
  burning :: "burnval option"
  corrosion :: "jsnum option"
  colorVariation :: "real option"

text \<open>One entry of a compressed state, and the compressed state itself.\<close>

record snap_particle =
  sx :: int
  sy :: int
  stype :: string
  slife :: "int option"
  sburning :: "burnval option"
  scorrosion :: "jsnum option"

record snapshot =
  particles :: "snap_particle list"
  swidth :: int
  sheight :: int
  scount :: int

text \<open>
  The engine. \<^verbatim>\<open>grid[y][x]\<close> is \<open>grid e ! nat y ! nat x\<close>, with \<open>None\<close> for \<^verbatim>\<open>null\<close>.
  \<^verbatim>\<open>activeRegions\<close> is a JavaScript \<^verbatim>\<open>Set\<close> of the strings \<^verbatim>\<open>"x,y"\<close>, which iterates in
  insertion order: it is the list of the coordinate pairs in insertion order, without
  duplicates. The stacks are arrays with the top at the end. \<^verbatim>\<open>_skipNextUndo\<close> is
  absent (falsy) on a new engine.
\<close>

record engine =
  width :: int
  height :: int
  grid :: "particle option list list"
  active :: bool
  gravity :: string
  speed :: int
  updateCount :: nat
  undoStack :: "snapshot list"
  redoStack :: "snapshot list"
  maxUndoSteps :: nat
  skipNextUndo :: bool
  particleCount :: int
  activeRegions :: "(int \<times> int) list"

definition createGrid :: "engine \<Rightarrow> particle option list list" where
  "createGrid e = replicate (nat (height e)) (replicate (nat (width e)) None)"

definition newEngine :: "int \<Rightarrow> int \<Rightarrow> engine" where
  "newEngine w h =
     \<lparr>width = w, height = h, grid = replicate (nat h) (replicate (nat w) None),
      active = True, gravity = ''down'', speed = 1, updateCount = 0,
      undoStack = [], redoStack = [], maxUndoSteps = 10, skipNextUndo = False,
      particleCount = 0, activeRegions = []\<rparr>"

text \<open>
  The bounds test every primitive starts with, and the cell accessors. Coordinates are
  integers. The source reads \<^verbatim>\<open>grid[y][x]\<close> only where the coordinates are in bounds: after
  a bounds test, inside loops over the grid's own ranges, or at an offset that an earlier
  test on the position of the processed particle keeps in range. \<open>cellAt\<close> is that read;
  outside the bounds it is \<open>None\<close>, a case no call below depends on. Every write of
  the primitives, the reactions and the behaviours is likewise in bounds.
\<close>

definition outOfBounds :: "engine \<Rightarrow> int \<Rightarrow> int \<Rightarrow> bool" where
  "outOfBounds e x y \<longleftrightarrow> x < 0 \<or> x \<ge> width e \<or> y < 0 \<or> y \<ge> height e"

definition cellAt :: "engine \<Rightarrow> int \<Rightarrow> int \<Rightarrow> particle option" where
  "cellAt e x y = (if outOfBounds e x y then None else grid e ! nat y ! nat x)"

definition setCell :: "engine \<Rightarrow> int \<Rightarrow> int \<Rightarrow> particle option \<Rightarrow> engine" where
  "setCell e x y v = e\<lparr>grid := (grid e)[nat y := (grid e ! nat y)[nat x := v]]\<rparr>"

text \<open>The grid has \<open>height\<close> rows of \<open>width\<close> cells: what the constructor, \<^verbatim>\<open>reset\<close> and
  \<^verbatim>\<open>importCompressedState\<close> build.\<close>

definition wf_engine :: "engine \<Rightarrow> bool" where
  "wf_engine e \<longleftrightarrow> 0 \<le> width e \<and> 0 \<le> height e \<and> length (grid e) = nat (height e) \<and>
     list_all (\<lambda>row. length row = nat (width e)) (grid e)"

definition countParticles :: "engine \<Rightarrow> int" where
  "countParticles e = (\<Sum>row\<leftarrow>grid e. int (length (filter (\<lambda>c. c \<noteq> None) row)))"

definition count_inv :: "engine \<Rightarrow> bool" where
  "count_inv e \<longleftrightarrow> particleCount e = countParticles e"

subsection \<open>Active regions\<close>

definition set_add :: "'a list \<Rightarrow> 'a \<Rightarrow> 'a list" where
  "set_add S k = (if k \<in> set S then S else S @ [k])"

definition set_delete :: "'a list \<Rightarrow> 'a \<Rightarrow> 'a list" where
  "set_delete S k = filter (\<lambda>k'. k' \<noteq> k) S"

text \<open>The offsets \<open>(dx, dy)\<close> of the two nested loops \<^verbatim>\<open>for dy = -1..1\<close>, \<^verbatim>\<open>for dx = -1..1\<close>.\<close>

definition offsets9 :: "(int \<times> int) list" where
  "offsets9 = [(-1, -1), (0, -1), (1, -1), (-1, 0), (0, 0), (1, 0), (-1, 1), (0, 1), (1, 1)]"

text \<open>\<^verbatim>\<open>_markRegionActive(x, y, targetSet)\<close>: the cell itself, then every in-bounds cell of
  its 3x3 neighbourhood.\<close>

definition markRegionActive :: "engine \<Rightarrow> int \<Rightarrow> int \<Rightarrow> (int \<times> int) list \<Rightarrow> (int \<times> int) list" where
  "markRegionActive e x y S =
     fold (\<lambda>(dx, dy) T. if outOfBounds e (x + dx) (y + dy) then T else set_add T (x + dx, y + dy))
          offsets9 (set_add S (x, y))"

definition markActive :: "engine \<Rightarrow> int \<Rightarrow> int \<Rightarrow> engine" where
  "markActive e x y = e\<lparr>activeRegions := markRegionActive e x y (activeRegions e)\<rparr>"

section \<open>Element registry\<close>

text \<open>
  The properties of an element definition that the engine, the particle factory and the
  behaviours of other elements read. The \<^verbatim>\<open>update\<close> member is modelled apart, by
  \<open>element_update\<close> below, with the tunables it reads from \<^verbatim>\<open>this\<close> (dispersion, spread
  chance, corrosion rate, emit rate and type, void radius) passed to it.
\<close>

datatype lifespan = LNum int | LRange int int

record element =
  el_colorVariation :: "real option"
  el_state :: "string option"
  el_static :: bool
  el_flammable :: bool
  el_flammability :: "real option"
  el_conductive :: bool
  el_lifespan :: "lifespan option"

definition mkElement :: "real \<Rightarrow> string \<Rightarrow> bool \<Rightarrow> element" where
  "mkElement cv st stat =
     \<lparr>el_colorVariation = Some cv, el_state = Some st, el_static = stat, el_flammable = False,
      el_flammability = None, el_conductive = False, el_lifespan = None\<rparr>"

definition elementTable :: "(string \<times> element) list" where
  "elementTable =
    [(''sand'', mkElement (1/10) ''solid'' False),
     (''wall'', mkElement (5/100) ''solid'' True),
     (''wood'', (mkElement (1/10) ''solid'' True)\<lparr>el_flammable := True, el_flammability := Some (5/100)\<rparr>),
     (''metal'', (mkElement (5/100) ''solid'' True)\<lparr>el_conductive := True\<rparr>),
     (''water'', mkElement (1/10) ''liquid'' False),
     (''oil'', (mkElement (15/100) ''liquid'' False)\<lparr>el_flammable := True, el_flammability := Some (2/10)\<rparr>),
     (''acid'', (mkElement (1/10) ''liquid'' False)\<lparr>el_lifespan := Some (LNum 200)\<rparr>),
     (''steam'', (mkElement (2/10) ''gas'' False)\<lparr>el_lifespan := Some (LNum 300)\<rparr>),
     (''smoke'', (mkElement (2/10) ''gas'' False)\<lparr>el_lifespan := Some (LNum 400)\<rparr>),
     (''fire'', (mkElement (3/10) ''energy'' False)\<lparr>el_lifespan := Some (LRange 40 100)\<rparr>),
     (''spark'', (mkElement (2/10) ''energy'' False)\<lparr>el_lifespan := Some (LRange 5 20)\<rparr>),
     (''source-water'', mkElement (5/100) ''special'' True),
     (''source-sand'', mkElement (5/100) ''special'' True),
     (''void'', mkElement 0 ''special'' True)]"

text \<open>
  \<^verbatim>\<open>ELEMENTS\<close> is an object literal, so \<^verbatim>\<open>ELEMENTS[type]\<close> is a property lookup that
  also finds what the object inherits from \<^verbatim>\<open>Object.prototype\<close>: for these names the
  lookup returns a function (or, for \<^verbatim>\<open>__proto__\<close>, the prototype object), which is
  truthy and has none of the properties of an element definition.
\<close>

definition objectPrototypeKeys :: "string list" where
  "objectPrototypeKeys =
    [''constructor'', ''hasOwnProperty'', ''isPrototypeOf'', ''propertyIsEnumerable'',
     ''toLocaleString'', ''toString'', ''valueOf'', ''__proto__'', ''__defineGetter__'',
     ''__defineSetter__'', ''__lookupGetter__'', ''__lookupSetter__'']"

definition inheritedProperty :: element where
  "inheritedProperty =
     \<lparr>el_colorVariation = None, el_state = None, el_static = False, el_flammable = False,
      el_flammability = None, el_conductive = False, el_lifespan = None\<rparr>"

definition ELEMENTS :: "string \<Rightarrow> element option" where
  "ELEMENTS t =
     (case map_of elementTable t of
        Some el \<Rightarrow> Some el
      | None \<Rightarrow> if t \<in> set objectPrototypeKeys then Some inheritedProperty else None)"

text \<open>\<^verbatim>\<open>Particles.createParticle(type, x, y)\<close>: \<open>None\<close> is \<^verbatim>\<open>null\<close>.\<close>

definition Particles_createParticle :: "string \<Rightarrow> int \<Rightarrow> int \<Rightarrow> rnd \<Rightarrow> particle option \<times> rnd" where
  "Particles_createParticle t x y r =
     (case ELEMENTS t of
        None \<Rightarrow> (None, r)
      | Some el \<Rightarrow>
          let p = \<lparr>ptype = t, px = x, py = y, vx = Some 0, vy = Some 0, updated = False,
                   life = None, burning = None, corrosion = None, colorVariation = None\<rparr>;
              (p1, r1) = (case el_colorVariation el of
                            Some cv \<Rightarrow> if cv > 0
                                       then (p\<lparr>colorVariation := Some (rhead r * cv * 2 - cv)\<rparr>, rtail r)
                                       else (p, r)
                          | None \<Rightarrow> (p, r));
              (p2, r2) = (if t = ''fire'' \<or> t = ''spark''
                          then (case el_lifespan el of
                                  Some (LRange lo hi) \<Rightarrow>
                                    (let (n, r') = randomInt lo hi r1 in (p1\<lparr>life := Some n\<rparr>, r'))
                                | _ \<Rightarrow> (p1, r1))
                          else (p1, r1))
          in (Some p2, r2))"

section \<open>Grid mutation primitives\<close>

definition createParticle :: "engine \<Rightarrow> int \<Rightarrow> int \<Rightarrow> string \<Rightarrow> rnd \<Rightarrow> bool \<times> engine \<times> rnd" where
  "createParticle e x y t r =
     (if x < 0 \<or> x \<ge> width e \<or> y < 0 \<or> y \<ge> height e then (False, e, r)
      else if cellAt e x y \<noteq> None then (False, e, r)
      else case Particles_createParticle t x y r of
             (Some p, r') \<Rightarrow>
               (True, markActive ((setCell e x y (Some p))\<lparr>particleCount := particleCount e + 1\<rparr>) x y, r')
           | (None, r') \<Rightarrow> (False, e, r'))"

definition removeParticle :: "engine \<Rightarrow> int \<Rightarrow> int \<Rightarrow> bool \<times> engine" where
  "removeParticle e x y =
     (if x < 0 \<or> x \<ge> width e \<or> y < 0 \<or> y \<ge> height e then (False, e)
      else if cellAt e x y \<noteq> None
      then (True, markActive ((setCell e x y None)\<lparr>particleCount := particleCount e - 1\<rparr>) x y)
      else (False, e))"

definition moveParticle :: "engine \<Rightarrow> int \<Rightarrow> int \<Rightarrow> int \<Rightarrow> int \<Rightarrow> bool \<times> engine" where
  "moveParticle e fromX fromY toX toY =
     (if fromX < 0 \<or> fromX \<ge> width e \<or> fromY < 0 \<or> fromY \<ge> height e \<or>
         toX < 0 \<or> toX \<ge> width e \<or> toY < 0 \<or> toY \<ge> height e then (False, e)
      else case cellAt e fromX fromY of
             Some p \<Rightarrow>
               if cellAt e toX toY = None
               then (True,
                     markActive
                       (markActive
                          (setCell (setCell e toX toY (Some (p\<lparr>px := toX, py := toY, updated := True\<rparr>)))
                                   fromX fromY None)
                          fromX fromY)
                       toX toY)
               else (False, e)
           | None \<Rightarrow> (False, e))"

definition swapParticles :: "engine \<Rightarrow> int \<Rightarrow> int \<Rightarrow> int \<Rightarrow> int \<Rightarrow> bool \<times> engine" where
  "swapParticles e x1 y1 x2 y2 =
     (if x1 < 0 \<or> x1 \<ge> width e \<or> y1 < 0 \<or> y1 \<ge> height e \<or>
         x2 < 0 \<or> x2 \<ge> width e \<or> y2 < 0 \<or> y2 \<ge> height e then (False, e)
      else case (cellAt e x1 y1, cellAt e x2 y2) of
             (Some a, Some b) \<Rightarrow>
               (True,
                markActive
                  (markActive
                     (setCell (setCell e x1 y1 (Some (b\<lparr>px := x1, py := y1, updated := True\<rparr>)))
                              x2 y2 (Some (a\<lparr>px := x2, py := y2, updated := True\<rparr>)))
                     x1 y1)
                  x2 y2)
           | _ \<Rightarrow> (False, e))"

definition changeParticleType :: "engine \<Rightarrow> int \<Rightarrow> int \<Rightarrow> string \<Rightarrow> rnd \<Rightarrow> bool \<times> engine \<times> rnd" where
  "changeParticleType e x y newType r =
     (if x < 0 \<or> x \<ge> width e \<or> y < 0 \<or> y \<ge> height e then (False, e, r)
      else if cellAt e x y \<noteq> None
      then case Particles_createParticle newType x y r of
             (Some p, r') \<Rightarrow> (True, markActive (setCell e x y (Some (p\<lparr>updated := True\<rparr>))) x y, r')
           | (None, r') \<Rightarrow> (False, e, r')
      else (False, e, r))"


section \<open>Compressed states and the undo history\<close>

text \<open>\<^verbatim>\<open>exportCompressedState\<close>: the rows from 0 to \<open>height - 1\<close>, in each row the columns
  from 0 to \<open>width - 1\<close>; a non-empty cell contributes its coordinates, its type and
  those of \<^verbatim>\<open>life\<close>, \<^verbatim>\<open>burning\<close>, \<^verbatim>\<open>corrosion\<close> that are not \<^verbatim>\<open>undefined\<close>.\<close>

definition snapOf :: "int \<Rightarrow> int \<Rightarrow> particle \<Rightarrow> snap_particle" where
  "snapOf x y p = \<lparr>sx = x, sy = y, stype = ptype p, slife = life p, sburning = burning p,
                    scorrosion = corrosion p\<rparr>"

definition exportCell :: "engine \<Rightarrow> int \<Rightarrow> int \<Rightarrow> snap_particle list" where
  "exportCell e x y = (case cellAt e x y of None \<Rightarrow> [] | Some p \<Rightarrow> [snapOf x y p])"

definition exportCompressedState :: "engine \<Rightarrow> snapshot" where
  "exportCompressedState e =
     \<lparr>particles = concat (map (\<lambda>y. concat (map (\<lambda>x. exportCell e x y) (map int [0..<nat (width e)])))
                                (map int [0..<nat (height e)])),
      swidth = width e, sheight = height e, scount = particleCount e\<rparr>"

text \<open>
  \<^verbatim>\<open>importCompressedState\<close>: a fresh grid of the engine's own size, the count taken from
  the state, the active regions cleared, then for each entry the assignment
  \<^verbatim>\<open>this.grid[p.y][p.x] = {...}\<close> and the marking of the region. The source does not check
  the coordinates of an entry:
  \<^item> when \<^verbatim>\<open>p.y\<close> is not a row of the grid, \<^verbatim>\<open>this.grid[p.y]\<close> is \<^verbatim>\<open>undefined\<close> and the
    assignment throws a \<^verbatim>\<open>TypeError\<close>, with the grid already replaced and the earlier
    entries already placed: the result is the error, carrying the engine as it is then;
  \<^item> when \<^verbatim>\<open>p.y\<close> is a row and \<^verbatim>\<open>p.x\<close> is not one of its columns, the assignment sets a
    property of the row array outside the cells of the grid, which no bounds-tested read
    ever sees: the cells are unchanged, and the region is marked as for any entry.
\<close>

datatype js_error = TypeError engine

definition restoreParticle :: "snap_particle \<Rightarrow> particle" where
  "restoreParticle p =
     \<lparr>ptype = stype p, px = sx p, py = sy p, vx = None, vy = None, updated = False,
      life = slife p, burning = sburning p, corrosion = scorrosion p, colorVariation = None\<rparr>"

definition importParticle :: "snap_particle \<Rightarrow> engine \<Rightarrow> engine" where
  "importParticle p e =
     markActive (if sx p < 0 \<or> width e \<le> sx p then e
                 else setCell e (sx p) (sy p) (Some (restoreParticle p)))
                (sx p) (sy p)"

fun importLoop :: "snap_particle list \<Rightarrow> engine \<Rightarrow> js_error + engine" where
  "importLoop [] e = Inr e"
| "importLoop (p # ps) e =
     (if sy p < 0 \<or> height e \<le> sy p then Inl (TypeError e)
      else importLoop ps (importParticle p e))"

definition importCompressedState :: "engine \<Rightarrow> snapshot \<Rightarrow> js_error + engine" where
  "importCompressedState e state =
     importLoop (particles state)
                (e\<lparr>grid := createGrid e, particleCount := scount state, activeRegions := []\<rparr>)"

definition saveUndoState :: "engine \<Rightarrow> engine" where
  "saveUndoState e =
     (if skipNextUndo e then e\<lparr>skipNextUndo := False\<rparr>
      else let pushed = undoStack e @ [exportCompressedState e];
               limited = (if length pushed > maxUndoSteps e then tl pushed else pushed)
           in e\<lparr>undoStack := limited, redoStack := []\<rparr>)"

definition reset :: "engine \<Rightarrow> engine" where
  "reset e = (let e1 = saveUndoState e
              in e1\<lparr>grid := createGrid e1, particleCount := 0, activeRegions := []\<rparr>)"

text \<open>\<^verbatim>\<open>undo\<close> and \<^verbatim>\<open>redo\<close>: an exception of the import leaves them as it left the
  import.\<close>

definition undo :: "engine \<Rightarrow> js_error + bool \<times> engine" where
  "undo e =
     (if undoStack e = [] then Inr (False, e)
      else let e1 = e\<lparr>redoStack := redoStack e @ [exportCompressedState e]\<rparr>;
               previousState = last (undoStack e1);
               e2 = e1\<lparr>undoStack := butlast (undoStack e1), skipNextUndo := True\<rparr>
           in case importCompressedState e2 previousState of
                Inl err \<Rightarrow> Inl err
              | Inr e3 \<Rightarrow> Inr (True, e3))"

definition redo :: "engine \<Rightarrow> js_error + bool \<times> engine" where
  "redo e =
     (if redoStack e = [] then Inr (False, e)
      else let e1 = e\<lparr>undoStack := undoStack e @ [exportCompressedState e]\<rparr>;
               nextState = last (redoStack e1);
               e2 = e1\<lparr>redoStack := butlast (redoStack e1), skipNextUndo := True\<rparr>
           in case importCompressedState e2 nextState of
                Inl err \<Rightarrow> Inl err
              | Inr e3 \<Rightarrow> Inr (True, e3))"

text \<open>\<^verbatim>\<open>drawElements\<close> and \<^verbatim>\<open>eraseElements\<close>: the undo bookkeeping, then one primitive
  call per point, counting the calls that returned \<^verbatim>\<open>true\<close>.\<close>

definition drawPoint :: "string \<Rightarrow> int \<times> int \<Rightarrow> int \<times> engine \<times> rnd \<Rightarrow> int \<times> engine \<times> rnd" where
  "drawPoint t pt acc =
     (case acc of (n, e, r) \<Rightarrow>
        (case createParticle e (fst pt) (snd pt) t r of
           (b, e', r') \<Rightarrow> (if b then n + 1 else n, e', r')))"

definition drawElements :: "engine \<Rightarrow> string \<Rightarrow> (int \<times> int) list \<Rightarrow> rnd \<Rightarrow> int \<times> engine \<times> rnd" where
  "drawElements e t points r = fold (drawPoint t) points (0, saveUndoState e, r)"

definition erasePoint :: "int \<times> int \<Rightarrow> int \<times> engine \<Rightarrow> int \<times> engine" where
  "erasePoint pt acc =
     (case acc of (n, e) \<Rightarrow>
        (case removeParticle e (fst pt) (snd pt) of
           (b, e') \<Rightarrow> (if b then n + 1 else n, e')))"

definition eraseElements :: "engine \<Rightarrow> (int \<times> int) list \<Rightarrow> int \<times> engine" where
  "eraseElements e points = fold erasePoint points (0, saveUndoState e)"

section \<open>Interaction resolver\<close>

text \<open>
  A reaction receives the engine and the coordinates of its two particles and returns
  the boolean of the JavaScript function, the engine after its writes and the rest of the
  random source. An assignment to a field of \<^verbatim>\<open>engine.grid[y][x]\<close> is \<open>modifyCell\<close>:
  \<^verbatim>\<open>processInteraction\<close> calls a reaction only when both cells hold a particle, and a
  type change keeps the cell occupied, so the object assigned to is always there.
\<close>

definition modifyCell :: "engine \<Rightarrow> int \<Rightarrow> int \<Rightarrow> (particle \<Rightarrow> particle) \<Rightarrow> engine" where
  "modifyCell e x y f = (case cellAt e x y of None \<Rightarrow> e | Some p \<Rightarrow> setCell e x y (Some (f p)))"

type_synonym reaction = "engine \<Rightarrow> int \<Rightarrow> int \<Rightarrow> int \<Rightarrow> int \<Rightarrow> rnd \<Rightarrow> bool \<times> engine \<times> rnd"

text \<open>\<^verbatim>\<open>Particles.ELEMENTS.fire.lifespan\<close>.\<close>

definition fireLifespanMin :: int where "fireLifespanMin = 40"
definition fireLifespanMax :: int where "fireLifespanMax = 100"

text \<open>\<^verbatim>\<open>engine.grid[y][x].life = Utils.randomInt(fire.lifespan.min, fire.lifespan.max)\<close>.\<close>

definition giveFireLife :: "engine \<Rightarrow> int \<Rightarrow> int \<Rightarrow> rnd \<Rightarrow> engine \<times> rnd" where
  "giveFireLife e x y r =
     (case randomInt fireLifespanMin fireLifespanMax r of
        (n, r') \<Rightarrow> (modifyCell e x y (\<lambda>p. p\<lparr>life := Some n\<rparr>), r'))"

definition water_fire :: reaction where
  "water_fire e waterX waterY fireX fireY r =
     (let (e1, r1) = (if rhead r < 7/10
                      then (case changeParticleType e waterX waterY ''steam'' (rtail r) of
                              (b, e', r') \<Rightarrow> (e', r'))
                      else (e, rtail r))
      in (True, snd (removeParticle e1 fireX fireY), r1))"

definition oil_fire :: reaction where
  "oil_fire e oilX oilY fireX fireY r =
     (case changeParticleType e oilX oilY ''fire'' r of
        (b, e1, r1) \<Rightarrow> (case giveFireLife e1 oilX oilY r1 of (e2, r2) \<Rightarrow> (True, e2, r2)))"

definition water_acid :: reaction where
  "water_acid e waterX waterY acidX acidY r =
     (if rhead r < 25/100 then (True, snd (removeParticle e acidX acidY), rtail r)
      else (False, e, rtail r))"

text \<open>The corrosion accumulator is a JavaScript number. \<^verbatim>\<open>!corrosion\<close> holds for a missing
  field, for 0 and for NaN; \<^verbatim>\<open>corrosion += 0.1\<close> stores the double nearest to the sum.\<close>

definition corrosionAt :: "engine \<Rightarrow> int \<Rightarrow> int \<Rightarrow> jsnum option" where
  "corrosionAt e x y = (case cellAt e x y of None \<Rightarrow> None | Some p \<Rightarrow> corrosion p)"

definition corrosionFalsy :: "jsnum option \<Rightarrow> bool" where
  "corrosionFalsy c = (case c of None \<Rightarrow> True | Some n \<Rightarrow> jsFalsy n)"

definition acid_metal :: reaction where
  "acid_metal e acidX acidY metalX metalY r =
     (let e1 = modifyCell e metalX metalY
                 (\<lambda>p. if corrosionFalsy (corrosion p) then p\<lparr>corrosion := Some (Num 0)\<rparr> else p);
          e2 = modifyCell e1 metalX metalY
                 (\<lambda>p. p\<lparr>corrosion := map_option (\<lambda>c. jsPlus c (Num tenth)) (corrosion p)\<rparr>)
      in if (case corrosionAt e2 metalX metalY of Some c \<Rightarrow> jsAtLeastOne c | None \<Rightarrow> False)
         then (let e3 = snd (removeParticle e2 metalX metalY)
               in if rhead r < 3/10 then (True, snd (removeParticle e3 acidX acidY), rtail r)
                  else (True, e3, rtail r))
         else (False, e2, r))"

text \<open>
  The accumulator after one invocation, in the words of the specification: 0 on first
  contact (a missing, zero or NaN field), then 0.1 more, the sum being a double. And the
  accumulator of a metal that starts without the field, after a number of invocations.
\<close>

definition nextCorrosion :: "particle \<Rightarrow> jsnum" where
  "nextCorrosion p =
     jsPlus (case corrosion p of None \<Rightarrow> Num 0 | Some c \<Rightarrow> if jsFalsy c then Num 0 else c) (Num tenth)"

primrec corrosionAfter :: "nat \<Rightarrow> jsnum" where
  "corrosionAfter 0 = Num 0"
| "corrosionAfter (Suc k) = jsPlus (corrosionAfter k) (Num tenth)"

definition acid_sand :: reaction where
  "acid_sand e acidX acidY sandX sandY r =
     (if rhead r < 4/100
      then (let e1 = snd (removeParticle e sandX sandY)
            in if rhead (rtail r) < 2/10
               then (True, snd (removeParticle e1 acidX acidY), rtail (rtail r))
               else (True, e1, rtail (rtail r)))
      else (False, e, rtail r))"

definition water_steam :: reaction where
  "water_steam e waterX waterY steamX steamY r =
     (if rhead r < 3/10 then (True, snd (removeParticle e steamX steamY), rtail r)
      else (False, e, rtail r))"

definition water_oil :: reaction where
  "water_oil e waterX waterY oilX oilY r =
     (if waterY < oilY then (True, snd (swapParticles e waterX waterY oilX oilY), r)
      else (False, e, r))"

text \<open>
  The burning counter: \<^verbatim>\<open>!burning\<close> holds for a missing field, for 0 and for the empty
  string; \<^verbatim>\<open>burning += 1\<close> adds one to a number and appends the character 1 to a string;
  \<^verbatim>\<open>burning >= 100\<close> compares a number, and is false for a string that is not the text
  of a number (the only string the code writes is \<^verbatim>\<open>'wood'\<close>).
\<close>

definition burningFalsy :: "burnval option \<Rightarrow> bool" where
  "burningFalsy b \<longleftrightarrow> b = None \<or> b = Some (BNum 0) \<or> b = Some (BStr [])"

definition burningIncr :: "burnval option \<Rightarrow> burnval option" where
  "burningIncr b = (case b of None \<Rightarrow> None
                    | Some (BNum n) \<Rightarrow> Some (BNum (n + 1))
                    | Some (BStr s) \<Rightarrow> Some (BStr (s @ ''1'')))"

definition burningAtLeast100 :: "burnval option \<Rightarrow> bool" where
  "burningAtLeast100 b = (case b of Some (BNum n) \<Rightarrow> n \<ge> 100 | _ \<Rightarrow> False)"

definition burningAt :: "engine \<Rightarrow> int \<Rightarrow> int \<Rightarrow> burnval option" where
  "burningAt e x y = (case cellAt e x y of None \<Rightarrow> None | Some p \<Rightarrow> burning p)"

definition fire_wood :: reaction where
  "fire_wood e fireX fireY woodX woodY r =
     (let e1 = modifyCell e woodX woodY
                 (\<lambda>p. if burningFalsy (burning p) then p\<lparr>burning := Some (BNum 0)\<rparr> else p);
          e2 = modifyCell e1 woodX woodY (\<lambda>p. p\<lparr>burning := burningIncr (burning p)\<rparr>)
      in if burningAtLeast100 (burningAt e2 woodX woodY)
         then (case changeParticleType e2 woodX woodY ''fire'' r of
                 (b, e3, r3) \<Rightarrow>
                   (case giveFireLife e3 woodX woodY r3 of
                      (e4, r4) \<Rightarrow>
                        if rhead r4 < 4/10 \<and> woodY > 0 \<and> cellAt e4 woodX (woodY - 1) = None
                        then (case createParticle e4 woodX (woodY - 1) ''smoke'' (rtail r4) of
                                (b', e5, r5) \<Rightarrow> (True, e5, r5))
                        else (True, e4, rtail r4)))
         else if rhead r < 5/100 \<and> woodY > 0 \<and> cellAt e2 woodX (woodY - 1) = None
         then (case createParticle e2 woodX (woodY - 1) ''fire'' (rtail r) of
                 (b', e3, r3) \<Rightarrow> (True, e3, r3))
         else (False, e2, rtail r))"

text \<open>The eight neighbours of a cell, in the order of the two nested loops with the
  centre skipped.\<close>

definition offsets8 :: "(int \<times> int) list" where
  "offsets8 = [(-1, -1), (0, -1), (1, -1), (-1, 0), (1, 0), (-1, 1), (0, 1), (1, 1)]"

definition exitPoints :: "engine \<Rightarrow> int \<Rightarrow> int \<Rightarrow> (int \<times> int) list" where
  "exitPoints e metalX metalY =
     filter (\<lambda>(nx, ny). \<not> outOfBounds e nx ny \<and> cellAt e nx ny = None)
            (map (\<lambda>(dx, dy). (metalX + dx, metalY + dy)) offsets8)"

definition lifeTruthy :: "int option \<Rightarrow> bool" where
  "lifeTruthy l \<longleftrightarrow> l \<noteq> None \<and> l \<noteq> Some 0"

definition spark_metal :: reaction where
  "spark_metal e sparkX sparkY metalX metalY r =
     (let pts = exitPoints e metalX metalY;
          loseEnergy = (\<lambda>e'. modifyCell e' sparkX sparkY
                          (\<lambda>p. if lifeTruthy (life p) then p\<lparr>life := map_option (\<lambda>l. l - 1) (life p)\<rparr> else p))
      in if pts = [] then (False, loseEnergy e, r)
         else if rhead r < 7/10
         then (case randomElement pts (rtail r) of
                 ((newX, newY), r1) \<Rightarrow>
                   (case createParticle (snd (removeParticle e sparkX sparkY)) newX newY ''spark'' r1 of
                      (b, e2, r2) \<Rightarrow> (True, e2, r2)))
         else (False, loseEnergy e, rtail r))"

definition spark_oil :: reaction where
  "spark_oil e sparkX sparkY oilX oilY r =
     (if rhead r < 8/10
      then (case changeParticleType e oilX oilY ''fire'' (rtail r) of
              (b, e1, r1) \<Rightarrow> (case giveFireLife e1 oilX oilY r1 of (e2, r2) \<Rightarrow> (True, e2, r2)))
      else (False, e, rtail r))"

definition fire_oil :: reaction where
  "fire_oil e fireX fireY oilX oilY r = spark_oil e fireX fireY oilX oilY r"

definition acid_wall :: reaction where
  "acid_wall e acidX acidY wallX wallY r = (False, e, r)"

definition steam_fire :: reaction where
  "steam_fire e steamX steamY fireX fireY r =
     (if rhead r < 4/10 then (True, snd (removeParticle e steamX steamY), rtail r)
      else (False, e, rtail r))"

text \<open>The table \<^verbatim>\<open>REACTIONS\<close>, looked up by the key string. A key built by
  \<^verbatim>\<open>processInteraction\<close> contains the character +, which no property inherited from
  \<^verbatim>\<open>Object.prototype\<close> has in its name: the lookup finds the table's own entries only.\<close>

definition REACTIONS :: "string \<Rightarrow> reaction option" where
  "REACTIONS key =
     map_of [(''water+fire'', water_fire), (''oil+fire'', oil_fire), (''water+acid'', water_acid),
             (''acid+metal'', acid_metal), (''acid+sand'', acid_sand), (''water+steam'', water_steam),
             (''water+oil'', water_oil), (''fire+wood'', fire_wood), (''spark+metal'', spark_metal),
             (''spark+oil'', spark_oil), (''fire+oil'', fire_oil), (''acid+wall'', acid_wall),
             (''steam+fire'', steam_fire)] key"

definition processInteraction :: "engine \<Rightarrow> int \<Rightarrow> int \<Rightarrow> int \<Rightarrow> int \<Rightarrow> rnd \<Rightarrow> bool \<times> engine \<times> rnd" where
  "processInteraction e x1 y1 x2 y2 r =
     (case (cellAt e x1 y1, cellAt e x2 y2) of
        (Some p1, Some p2) \<Rightarrow>
          (case REACTIONS (ptype p1 @ ''+'' @ ptype p2) of
             Some reaction1 \<Rightarrow> reaction1 e x1 y1 x2 y2 r
           | None \<Rightarrow>
               (case REACTIONS (ptype p2 @ ''+'' @ ptype p1) of
                  Some reaction2 \<Rightarrow> reaction2 e x2 y2 x1 y1 r
                | None \<Rightarrow> (False, e, r)))
      | _ \<Rightarrow> (False, e, r))"

text \<open>The neighbour loop of \<^verbatim>\<open>processParticleInteractions\<close>, over the offsets still to
  visit: the first reaction that returns \<^verbatim>\<open>true\<close> ends it; after a reaction that
  returns \<^verbatim>\<open>false\<close> the loop goes on with the engine that reaction left.\<close>

fun interactionLoop :: "engine \<Rightarrow> int \<Rightarrow> int \<Rightarrow> (int \<times> int) list \<Rightarrow> rnd \<Rightarrow> bool \<times> engine \<times> rnd" where
  "interactionLoop e x y [] r = (False, e, r)"
| "interactionLoop e x y (d # ds) r =
     (if fst d = 0 \<and> snd d = 0 then interactionLoop e x y ds r
      else if \<not> outOfBounds e (x + fst d) (y + snd d) \<and> cellAt e (x + fst d) (y + snd d) \<noteq> None
      then (case processInteraction e x y (x + fst d) (y + snd d) r of
              (b, e', r') \<Rightarrow> if b then (True, e', r') else interactionLoop e' x y ds r')
      else interactionLoop e x y ds r)"

definition processParticleInteractions :: "engine \<Rightarrow> int \<Rightarrow> int \<Rightarrow> rnd \<Rightarrow> bool \<times> engine \<times> rnd" where
  "processParticleInteractions e x y r =
     (if cellAt e x y = None then (False, e, r) else interactionLoop e x y offsets9 r)"

section \<open>Element behaviours\<close>

text \<open>
  The \<^verbatim>\<open>update\<close> functions of the element definitions. Each returns the boolean of the
  JavaScript function, the engine after its writes and the rest of the random source.
  A behaviour that another element calls with \<^verbatim>\<open>.call(this, ...)\<close> takes as arguments the
  properties it reads from \<^verbatim>\<open>this\<close>.
\<close>

type_synonym behaviour = "engine \<Rightarrow> int \<Rightarrow> int \<Rightarrow> rnd \<Rightarrow> bool \<times> engine \<times> rnd"

text \<open>An empty in-range column of a row that is in range: \<^verbatim>\<open>nx >= 0 && nx < width && !grid[ny][nx]\<close>.\<close>

definition freeAt :: "engine \<Rightarrow> int \<Rightarrow> int \<Rightarrow> bool" where
  "freeAt e nx ny \<longleftrightarrow> nx \<ge> 0 \<and> nx < width e \<and> cellAt e nx ny = None"

definition sand_update :: "real \<Rightarrow> behaviour" where
  "sand_update spreadChance e x y r =
     (if y \<ge> height e - 1 then (False, e, r)
      else if cellAt e x (y + 1) = None then (True, snd (moveParticle e x y x (y + 1)), r)
      else
        let direction = (if rhead r < 1/2 then 1 else - 1 :: int);
            r1 = rtail r
        in if freeAt e (x + direction) (y + 1) \<and> rhead r1 < spreadChance
           then (True, snd (moveParticle e x y (x + direction) (y + 1)), rtail r1)
           else
             let r2 = (if freeAt e (x + direction) (y + 1) then rtail r1 else r1)
             in if freeAt e (x - direction) (y + 1)
                then (if rhead r2 < spreadChance
                      then (True, snd (moveParticle e x y (x - direction) (y + 1)), rtail r2)
                      else (False, e, rtail r2))
                else (False, e, r2))"

definition static_update :: behaviour where
  "static_update e x y r = (False, e, r)"

definition water_update :: "real \<Rightarrow> behaviour" where
  "water_update dispersion e x y r =
     (if y \<ge> height e - 1 then (False, e, r)
      else if cellAt e x (y + 1) = None then (True, snd (moveParticle e x y x (y + 1)), r)
      else
        let flowDirection = (if rhead r < 1/2 then 1 else - 1 :: int);
            r1 = rtail r
        in if freeAt e (x + flowDirection) (y + 1)
           then (True, snd (moveParticle e x y (x + flowDirection) (y + 1)), r1)
           else if freeAt e (x - flowDirection) (y + 1)
           then (True, snd (moveParticle e x y (x - flowDirection) (y + 1)), r1)
           else if rhead r1 < dispersion
           then (if freeAt e (x + flowDirection) y
                 then (True, snd (moveParticle e x y (x + flowDirection) y), rtail r1)
                 else if freeAt e (x - flowDirection) y
                 then (True, snd (moveParticle e x y (x - flowDirection) y), rtail r1)
                 else (False, e, rtail r1))
           else (False, e, rtail r1))"

text \<open>\<^verbatim>\<open>neighbor.type.startsWith('source')\<close>.\<close>

definition startsWithSource :: "string \<Rightarrow> bool" where
  "startsWithSource t \<longleftrightarrow> take 6 t = ''source''"

text \<open>The dissolving loop of the acid: \<open>Some\<close> is the early \<^verbatim>\<open>return true\<close> of an acid
  that was consumed, \<open>None\<close> the end of the loop.\<close>

fun acidLoop :: "real \<Rightarrow> engine \<Rightarrow> int \<Rightarrow> int \<Rightarrow> (int \<times> int) list \<Rightarrow> rnd \<Rightarrow> bool option \<times> engine \<times> rnd" where
  "acidLoop rate e x y [] r = (None, e, r)"
| "acidLoop rate e x y (d # ds) r =
     (if fst d = 0 \<and> snd d = 0 then acidLoop rate e x y ds r
      else case (if outOfBounds e (x + fst d) (y + snd d) then None
                 else cellAt e (x + fst d) (y + snd d)) of
             None \<Rightarrow> acidLoop rate e x y ds r
           | Some neighbor \<Rightarrow>
               if ptype neighbor = ''wall'' \<or> ptype neighbor = ''acid'' \<or> ptype neighbor = ''void'' \<or>
                  startsWithSource (ptype neighbor)
               then acidLoop rate e x y ds r
               else if rhead r < rate
               then (let e1 = snd (removeParticle e (x + fst d) (y + snd d))
                     in if rhead (rtail r) < 3/10
                        then (Some True, snd (removeParticle e1 x y), rtail (rtail r))
                        else acidLoop rate e1 x y ds (rtail (rtail r)))
               else acidLoop rate e x y ds (rtail r))"

definition acid_update :: "real \<Rightarrow> real \<Rightarrow> behaviour" where
  "acid_update corrosionRate dispersion e x y r =
     (case acidLoop corrosionRate e x y offsets9 r of
        (Some b, e', r') \<Rightarrow> (b, e', r')
      | (None, e', r') \<Rightarrow> water_update dispersion e' x y r')"

definition steam_update :: "real \<Rightarrow> behaviour" where
  "steam_update dispersion e x y r =
     (if rhead r < 1/100 then (True, snd (removeParticle e x y), rtail r)
      else
        let r0 = rtail r
        in if y \<le> 0 then (False, e, r0)
           else if cellAt e x (y - 1) = None then (True, snd (moveParticle e x y x (y - 1)), r0)
           else
             let direction = (if rhead r0 < 1/2 then 1 else - 1 :: int);
                 r1 = rtail r0;
                 c1 = (freeAt e (x + direction) (y - 1) \<and> y - 1 \<ge> 0)
             in if c1 \<and> rhead r1 < dispersion
                then (True, snd (moveParticle e x y (x + direction) (y - 1)), rtail r1)
                else
                  let r2 = (if c1 then rtail r1 else r1);
                      c2 = (freeAt e (x - direction) (y - 1) \<and> y - 1 \<ge> 0)
                  in if c2 \<and> rhead r2 < dispersion
                     then (True, snd (moveParticle e x y (x - direction) (y - 1)), rtail r2)
                     else
                       let r3 = (if c2 then rtail r2 else r2)
                       in if freeAt e (x + direction) y
                          then (if rhead r3 < dispersion
                                then (True, snd (moveParticle e x y (x + direction) y), rtail r3)
                                else (False, e, rtail r3))
                          else (False, e, r3))"

definition lifeAt :: "engine \<Rightarrow> int \<Rightarrow> int \<Rightarrow> int option" where
  "lifeAt e x y = (case cellAt e x y of None \<Rightarrow> None | Some p \<Rightarrow> life p)"

definition decrLife :: "engine \<Rightarrow> int \<Rightarrow> int \<Rightarrow> engine" where
  "decrLife e x y = modifyCell e x y (\<lambda>p. p\<lparr>life := map_option (\<lambda>l. l - 1) (life p)\<rparr>)"

definition lifeExpired :: "engine \<Rightarrow> int \<Rightarrow> int \<Rightarrow> bool" where
  "lifeExpired e x y = (case lifeAt e x y of Some l \<Rightarrow> l \<le> 0 | None \<Rightarrow> False)"

definition smoke_update :: "int \<Rightarrow> real \<Rightarrow> behaviour" where
  "smoke_update lifespan dispersion e x y r =
     (let e1 = (if lifeTruthy (lifeAt e x y) then e
                else modifyCell e x y (\<lambda>p. p\<lparr>life := Some lifespan\<rparr>));
          e2 = decrLife e1 x y
      in if lifeExpired e2 x y then (True, snd (removeParticle e2 x y), r)
         else if rhead r < (1 - (case lifeAt e2 x y of Some l \<Rightarrow> of_int l | None \<Rightarrow> 0) / of_int lifespan) * (5/100)
         then (True, snd (removeParticle e2 x y), rtail r)
         else steam_update dispersion e2 x y (rtail r))"

text \<open>\<^verbatim>\<open>if (!particle.life) particle.life = Utils.randomInt(min, max)\<close>.\<close>

definition initLife :: "int \<Rightarrow> int \<Rightarrow> engine \<Rightarrow> int \<Rightarrow> int \<Rightarrow> rnd \<Rightarrow> engine \<times> rnd" where
  "initLife lo hi e x y r =
     (if lifeTruthy (lifeAt e x y) then (e, r)
      else case randomInt lo hi r of (n, r') \<Rightarrow> (modifyCell e x y (\<lambda>p. p\<lparr>life := Some n\<rparr>), r'))"

text \<open>The spreading loop of the fire, over all nine offsets (the centre is not skipped).
  \<open>neighbor\<close> is the object read at the start of the iteration: its type is the type
  before the ignition.\<close>

fun fireLoop :: "engine \<Rightarrow> int \<Rightarrow> int \<Rightarrow> (int \<times> int) list \<Rightarrow> rnd \<Rightarrow> bool option \<times> engine \<times> rnd" where
  "fireLoop e x y [] r = (None, e, r)"
| "fireLoop e x y (d # ds) r =
     (case (if outOfBounds e (x + fst d) (y + snd d) then None
            else cellAt e (x + fst d) (y + snd d)) of
        None \<Rightarrow> fireLoop e x y ds r
      | Some neighbor \<Rightarrow>
          let nx = x + fst d; ny = y + snd d;
              flammable = (case ELEMENTS (ptype neighbor) of Some el \<Rightarrow> el_flammable el | None \<Rightarrow> False);
              roll = (case ELEMENTS (ptype neighbor) of
                        Some el \<Rightarrow> (case el_flammability el of Some f \<Rightarrow> rhead r < f | None \<Rightarrow> False)
                      | None \<Rightarrow> False);
              (e1, r1) =
                (if flammable
                 then (if roll
                       then (case changeParticleType e nx ny ''fire'' (rtail r) of
                               (b, e', r') \<Rightarrow>
                                 (case giveFireLife e' nx ny r' of
                                    (e'', r'') \<Rightarrow>
                                      (if ptype neighbor = ''wood''
                                       then modifyCell e'' nx ny (\<lambda>p. p\<lparr>burning := Some (BStr ''wood'')\<rparr>)
                                       else e'', r'')))
                       else (e, rtail r))
                 else (e, r))
          in if ptype neighbor = ''water''
             then (let (e2, r2) = (if rhead r1 < 7/10
                                   then (case changeParticleType e1 nx ny ''steam'' (rtail r1) of
                                           (b, e', r') \<Rightarrow> (e', r'))
                                   else (snd (removeParticle e1 nx ny), rtail r1))
                   in (Some True, snd (removeParticle e2 x y), r2))
             else fireLoop e1 x y ds r1)"

definition fire_update :: behaviour where
  "fire_update e x y r =
     (case initLife fireLifespanMin fireLifespanMax e x y r of
        (e0, r0) \<Rightarrow>
          let e1 = decrLife e0 x y
          in if lifeExpired e1 x y
             then (if rhead r0 < 1/2
                   then (case changeParticleType e1 x y ''smoke'' (rtail r0) of (b, e', r') \<Rightarrow> (True, e', r'))
                   else (True, snd (removeParticle e1 x y), rtail r0))
             else (case fireLoop e1 x y offsets9 r0 of
                     (Some b, e2, r2) \<Rightarrow> (b, e2, r2)
                   | (None, e2, r2) \<Rightarrow>
                       let canRise = (y > 0 \<and> cellAt e2 x (y - 1) = None)
                       in if canRise \<and> rhead r2 < 4/10
                          then (True, snd (moveParticle e2 x y x (y - 1)), rtail r2)
                          else
                            let r3 = (if canRise then rtail r2 else r2);
                                moveX = x + (if rhead r3 < 1/2 then 1 else - 1);
                                r4 = rtail r3
                            in if freeAt e2 moveX y
                               then (if rhead r4 < 3/10
                                     then (True, snd (moveParticle e2 x y moveX y), rtail r4)
                                     else (False, e2, rtail r4))
                               else (False, e2, r4)))"

text \<open>The neighbour loop of the spark: the conductive neighbours found so far are the
  accumulator; a flammable neighbour is ignited when the draw is below twice its
  flammability.\<close>

fun sparkLoop :: "engine \<Rightarrow> int \<Rightarrow> int \<Rightarrow> (int \<times> int) list \<Rightarrow> (int \<times> int) list \<Rightarrow> rnd
                  \<Rightarrow> (int \<times> int) list \<times> engine \<times> rnd" where
  "sparkLoop e x y [] conductiveNeighbors r = (conductiveNeighbors, e, r)"
| "sparkLoop e x y (d # ds) conductiveNeighbors r =
     (if fst d = 0 \<and> snd d = 0 then sparkLoop e x y ds conductiveNeighbors r
      else case (if outOfBounds e (x + fst d) (y + snd d) then None
                 else cellAt e (x + fst d) (y + snd d)) of
             None \<Rightarrow> sparkLoop e x y ds conductiveNeighbors r
           | Some neighbor \<Rightarrow>
               let nx = x + fst d; ny = y + snd d;
                   elemType = ELEMENTS (ptype neighbor);
                   found = (case elemType of
                              Some el \<Rightarrow> if el_conductive el then conductiveNeighbors @ [(nx, ny)]
                                         else conductiveNeighbors
                            | None \<Rightarrow> conductiveNeighbors);
                   flammable = (case elemType of Some el \<Rightarrow> el_flammable el | None \<Rightarrow> False);
                   roll = (case elemType of
                             Some el \<Rightarrow> (case el_flammability el of Some f \<Rightarrow> rhead r < f * 2 | None \<Rightarrow> False)
                           | None \<Rightarrow> False)
               in if flammable
                  then (if roll
                        then (case changeParticleType e nx ny ''fire'' (rtail r) of
                                (b, e', r') \<Rightarrow> sparkLoop e' x y ds found r')
                        else sparkLoop e x y ds found (rtail r))
                  else sparkLoop e x y ds found r)"

definition sparkLifespanMin :: int where "sparkLifespanMin = 5"
definition sparkLifespanMax :: int where "sparkLifespanMax = 20"

text \<open>The eight directions of the spark's random step: the arrays \<^verbatim>\<open>dx\<close> and \<^verbatim>\<open>dy\<close>
  indexed by \<^verbatim>\<open>dir\<close>.\<close>

definition sparkDirs :: "(int \<times> int) list" where
  "sparkDirs = [(0, -1), (1, -1), (1, 0), (1, 1), (0, 1), (-1, 1), (-1, 0), (-1, -1)]"

definition spark_update :: behaviour where
  "spark_update e x y r =
     (case initLife sparkLifespanMin sparkLifespanMax e x y r of
        (e0, r0) \<Rightarrow>
          let e1 = decrLife e0 x y
          in if lifeExpired e1 x y then (True, snd (removeParticle e1 x y), r0)
             else (case sparkLoop e1 x y offsets9 [] r0 of
                     (conductiveNeighbors, e2, r2) \<Rightarrow>
                       if conductiveNeighbors \<noteq> [] \<and> rhead r2 < 7/10
                       then (case randomElement conductiveNeighbors (rtail r2) of
                               ((nx, ny), r3) \<Rightarrow> (True, snd (moveParticle e2 x y nx ny), r3))
                       else
                         let r3 = (if conductiveNeighbors \<noteq> [] then rtail r2 else r2);
                             dir = fst (randomInt 0 7 r3);
                             r4 = rtail r3;
                             nx = x + fst (sparkDirs ! nat dir);
                             ny = y + snd (sparkDirs ! nat dir)
                         in if \<not> outOfBounds e2 nx ny \<and> cellAt e2 nx ny = None
                            then (True, snd (moveParticle e2 x y nx ny), r4)
                            else (False, e2, r4)))"

text \<open>
  The sources shuffle the four directions with \<^verbatim>\<open>directions.sort(() => Math.random() - 0.5)\<close>.
  What a sort does with a comparator that is not consistent, and how many times it calls
  it, is left to the JavaScript engine: the shuffle is a parameter \<open>hostSort\<close> of the
  model, which takes the random source and the array and returns the reordered array and
  the rest of the source. Nothing is assumed about it.
\<close>

type_synonym host_sort = "rnd \<Rightarrow> (int \<times> int) list \<Rightarrow> (int \<times> int) list \<times> rnd"

fun emitLoop :: "string \<Rightarrow> engine \<Rightarrow> int \<Rightarrow> int \<Rightarrow> (int \<times> int) list \<Rightarrow> rnd \<Rightarrow> bool \<times> engine \<times> rnd" where
  "emitLoop emitType e x y [] r = (False, e, r)"
| "emitLoop emitType e x y (d # ds) r =
     (if \<not> outOfBounds e (x + fst d) (y + snd d) \<and> cellAt e (x + fst d) (y + snd d) = None
      then (case createParticle e (x + fst d) (y + snd d) emitType r of
              (b, e', r') \<Rightarrow> (True, e', r'))
      else emitLoop emitType e x y ds r)"

definition source_update :: "host_sort \<Rightarrow> real \<Rightarrow> string \<Rightarrow> behaviour" where
  "source_update hostSort emitRate emitType e x y r =
     (if rhead r < emitRate
      then (case hostSort (rtail r) [(0, 1), (1, 0), (0, -1), (-1, 0)] of
              (directions, r1) \<Rightarrow> emitLoop emitType e x y directions r1)
      else (False, e, rtail r))"

text \<open>The void: the offsets of the square of the given radius, rows first.\<close>

definition voidOffsets :: "int \<Rightarrow> (int \<times> int) list" where
  "voidOffsets radius = concat (map (\<lambda>dy. map (\<lambda>dx. (dx, dy)) [- radius..radius]) [- radius..radius])"

fun voidLoop :: "engine \<Rightarrow> int \<Rightarrow> int \<Rightarrow> (int \<times> int) list \<Rightarrow> bool \<Rightarrow> bool \<times> engine" where
  "voidLoop e x y [] deleted = (deleted, e)"
| "voidLoop e x y (d # ds) deleted =
     (if fst d = 0 \<and> snd d = 0 then voidLoop e x y ds deleted
      else case (if outOfBounds e (x + fst d) (y + snd d) then None
                 else cellAt e (x + fst d) (y + snd d)) of
             None \<Rightarrow> voidLoop e x y ds deleted
           | Some target \<Rightarrow>
               if ptype target = ''void'' \<or> startsWithSource (ptype target)
               then voidLoop e x y ds deleted
               else voidLoop (snd (removeParticle e (x + fst d) (y + snd d))) x y ds True)"

definition void_update :: "int \<Rightarrow> behaviour" where
  "void_update voidRadius e x y r =
     (case voidLoop e x y (voidOffsets voidRadius) False of (deleted, e') \<Rightarrow> (deleted, e', r))"

text \<open>The \<^verbatim>\<open>update\<close> member of \<^verbatim>\<open>ELEMENTS[type]\<close>, with the tunables of the element whose
  member it is; \<open>None\<close> where the value found has no such member.\<close>

definition element_update :: "host_sort \<Rightarrow> string \<Rightarrow> behaviour option" where
  "element_update hostSort t =
     map_of [(''sand'', sand_update (8/10)),
             (''wall'', static_update), (''wood'', static_update), (''metal'', static_update),
             (''water'', water_update (8/10)), (''oil'', water_update (7/10)),
             (''acid'', acid_update (1/10) (75/100)),
             (''steam'', steam_update (9/10)), (''smoke'', smoke_update 400 (95/100)),
             (''fire'', fire_update), (''spark'', spark_update),
             (''source-water'', source_update hostSort (2/10) ''water''),
             (''source-sand'', source_update hostSort (15/100) ''sand''),
             (''void'', void_update 1)] t"

section \<open>Update scheduler\<close>

text \<open>The test shared by the five order functions: only the active regions are
  visited when there are some and the tick counter is not a multiple of 5.\<close>

definition activeOnly :: "engine \<Rightarrow> bool" where
  "activeOnly e \<longleftrightarrow> length (activeRegions e) > 0 \<and> updateCount e mod 5 \<noteq> 0"

definition columns :: "engine \<Rightarrow> int list" where
  "columns e = map int [0..<nat (width e)]"

definition rows :: "engine \<Rightarrow> int list" where
  "rows e = map int [0..<nat (height e)]"

definition getBottomToTopOrder :: "engine \<Rightarrow> (int \<times> int) list" where
  "getBottomToTopOrder e =
     (if activeOnly e then activeRegions e
      else concat (map (\<lambda>y. map (\<lambda>x. (x, y)) (columns e)) (rev (rows e))))"

definition getTopToBottomOrder :: "engine \<Rightarrow> (int \<times> int) list" where
  "getTopToBottomOrder e =
     (if activeOnly e then activeRegions e
      else concat (map (\<lambda>y. map (\<lambda>x. (x, y)) (columns e)) (rows e)))"

definition getLeftToRightOrder :: "engine \<Rightarrow> (int \<times> int) list" where
  "getLeftToRightOrder e =
     (if activeOnly e then activeRegions e
      else concat (map (\<lambda>x. map (\<lambda>y. (x, y)) (rows e)) (columns e)))"

definition getRightToLeftOrder :: "engine \<Rightarrow> (int \<times> int) list" where
  "getRightToLeftOrder e =
     (if activeOnly e then activeRegions e
      else concat (map (\<lambda>x. map (\<lambda>y. (x, y)) (rows e)) (rev (columns e))))"

text \<open>The shuffle of \<^verbatim>\<open>_getRandomOrder\<close>: \<open>i\<close> runs from the last index down to 1, \<open>j\<close> is
  \<^verbatim>\<open>Math.floor(Math.random() * (i + 1))\<close>, and the entries at \<open>i\<close> and \<open>j\<close> are exchanged.\<close>

fun shuffleLoop :: "nat \<Rightarrow> 'a list \<Rightarrow> rnd \<Rightarrow> 'a list \<times> rnd" where
  "shuffleLoop 0 coords r = (coords, r)"
| "shuffleLoop (Suc i) coords r =
     (let j = randomIndex (Suc i + 1) r
      in shuffleLoop i (coords[Suc i := coords ! j, j := coords ! Suc i]) (rtail r))"

definition shuffle :: "'a list \<Rightarrow> rnd \<Rightarrow> 'a list \<times> rnd" where
  "shuffle coords r = shuffleLoop (length coords - 1) coords r"

definition getRandomOrder :: "engine \<Rightarrow> rnd \<Rightarrow> (int \<times> int) list \<times> rnd" where
  "getRandomOrder e r =
     (if activeOnly e then shuffle (activeRegions e) r
      else shuffle (concat (map (\<lambda>y. map (\<lambda>x. (x, y)) (columns e)) (rows e))) r)"

definition updateOrder :: "engine \<Rightarrow> rnd \<Rightarrow> (int \<times> int) list \<times> rnd" where
  "updateOrder e r =
     (if gravity e = ''down'' then (getBottomToTopOrder e, r)
      else if gravity e = ''up'' then (getTopToBottomOrder e, r)
      else if gravity e = ''left'' then (getLeftToRightOrder e, r)
      else if gravity e = ''right'' then (getRightToLeftOrder e, r)
      else getRandomOrder e r)"

text \<open>The first loop of \<^verbatim>\<open>update\<close>, over the rows and columns of a grid that has the
  engine's dimensions: every particle's flag is cleared.\<close>

definition resetUpdated :: "engine \<Rightarrow> engine" where
  "resetUpdated e = e\<lparr>grid := map (map (map_option (\<lambda>p. p\<lparr>updated := False\<rparr>))) (grid e)\<rparr>"

text \<open>
  The state of the main loop of \<^verbatim>\<open>update\<close>: the engine, the set \<^verbatim>\<open>newActiveRegions\<close>, the
  counter \<^verbatim>\<open>updatedCount\<close> and the random source. \<open>updateStep\<close> is one iteration of the
  loop, for the coordinates \<open>(x, y)\<close> of the visit order.
\<close>

type_synonym loop_state = "engine \<times> (int \<times> int) list \<times> int \<times> rnd"

definition pruneStatic :: "element \<Rightarrow> engine \<Rightarrow> int \<Rightarrow> int \<Rightarrow> engine" where
  "pruneStatic elementType e x y =
     (if el_static elementType \<and> (x, y) \<in> set (activeRegions e)
      then (if el_state elementType \<noteq> Some ''special''
            then e\<lparr>activeRegions := set_delete (activeRegions e) (x, y)\<rparr>
            else e)
      else e)"

definition updateStep :: "host_sort \<Rightarrow> int \<times> int \<Rightarrow> loop_state \<Rightarrow> loop_state" where
  "updateStep hostSort xy st =
     (case st of (e, newActiveRegions, updatedCount, r) \<Rightarrow>
        let x = fst xy; y = snd xy
        in case cellAt e x y of
             None \<Rightarrow> st
           | Some particle \<Rightarrow>
               if updated particle then st
               else case ELEMENTS (ptype particle) of
                      None \<Rightarrow> st
                    | Some elementType \<Rightarrow>
                        let e1 = modifyCell e x y (\<lambda>p. p\<lparr>updated := True\<rparr>)
                        in case processParticleInteractions e1 x y r of
                             (True, e2, r2) \<Rightarrow>
                               (e2, markRegionActive e2 x y newActiveRegions, updatedCount + 1, r2)
                           | (False, e2, r2) \<Rightarrow>
                               (case (case element_update hostSort (ptype particle) of
                                        Some f \<Rightarrow> f e2 x y r2
                                      | None \<Rightarrow> (False, e2, r2)) of
                                  (changed, e3, r3) \<Rightarrow>
                                    (pruneStatic elementType e3 x y,
                                     if changed then markRegionActive e3 x y newActiveRegions
                                     else newActiveRegions,
                                     updatedCount + 1, r3)))"

definition update :: "host_sort \<Rightarrow> engine \<Rightarrow> rnd \<Rightarrow> int \<times> engine \<times> rnd" where
  "update hostSort e r =
     (if \<not> active e then (0, e, r)
      else
        let e1 = resetUpdated e
        in case updateOrder e1 r of
             (order, r1) \<Rightarrow>
               (case fold (updateStep hostSort) order (e1, [], 0, r1) of
                  (e2, newActiveRegions, updatedCount, r2) \<Rightarrow>
                    (updatedCount,
                     e2\<lparr>activeRegions := fold (\<lambda>region S. set_add S region) newActiveRegions (activeRegions e2),
                        updateCount := updateCount e2 + 1\<rparr>,
                     r2)))"

section \<open>Reachable states and concrete inputs\<close>

text \<open>The engine states that the constructor and the five mutation primitives produce.\<close>

inductive reachable :: "engine \<Rightarrow> bool" where
  init: "0 \<le> w \<Longrightarrow> 0 \<le> h \<Longrightarrow> reachable (newEngine w h)"
| create: "reachable e \<Longrightarrow> reachable (fst (snd (createParticle e x y t r)))"
| remove: "reachable e \<Longrightarrow> reachable (snd (removeParticle e x y))"
| move: "reachable e \<Longrightarrow> reachable (snd (moveParticle e x y x2 y2))"
| swap: "reachable e \<Longrightarrow> reachable (snd (swapParticles e x y x2 y2))"
| change: "reachable e \<Longrightarrow> reachable (fst (snd (changeParticleType e x y t r)))"

text \<open>A random source whose every draw is 1/2.\<close>

definition halfRnd :: rnd where
  "halfRnd = (\<lambda>_. Abs_draw (1/2))"

text \<open>A host sort that leaves the array as it is and draws nothing.\<close>

definition keepOrder :: host_sort where
  "keepOrder r directions = (directions, r)"

text \<open>A paused engine holding one sand particle, and an engine in a tick that visits only
  its two active regions.\<close>

definition pausedEngine :: engine where
  "pausedEngine = (fst (snd (createParticle (newEngine 2 2) 0 0 ''sand'' halfRnd)))\<lparr>active := False\<rparr>"

definition activeTickEngine :: engine where
  "activeTickEngine = (newEngine 2 2)\<lparr>updateCount := 1, activeRegions := [(1, 0), (0, 0)]\<rparr>"

text \<open>An engine holding one fire particle, whose \<^verbatim>\<open>life\<close> the factory set.\<close>

definition fireEngine :: engine where
  "fireEngine = fst (snd (createParticle (newEngine 2 2) 1 0 ''fire'' halfRnd))"

text \<open>A random source whose every draw is 1/20.\<close>

definition lowRnd :: rnd where
  "lowRnd = (\<lambda>_. Abs_draw (1/20))"

text \<open>A particle as the factory builds it when the colour-variation draw is 1/2, and small
  grids holding such particles.\<close>

definition plainParticle :: "string \<Rightarrow> int \<Rightarrow> int \<Rightarrow> particle" where
  "plainParticle t x y =
     \<lparr>ptype = t, px = x, py = y, vx = Some 0, vy = Some 0, updated = False,
      life = None, burning = None, corrosion = None, colorVariation = Some 0\<rparr>"

definition sparkMetalEngine :: engine where
  "sparkMetalEngine =
     (newEngine 2 1)\<lparr>grid := [[Some ((plainParticle ''spark'' 0 0)\<lparr>life := Some 10\<rparr>),
                                 Some (plainParticle ''metal'' 1 0)]],
                      particleCount := 2\<rparr>"

definition acidMetalEngine :: engine where
  "acidMetalEngine =
     (newEngine 2 1)\<lparr>grid := [[Some (plainParticle ''acid'' 0 0), Some (plainParticle ''metal'' 1 0)]],
                      particleCount := 2\<rparr>"

text \<open>An acid beside a metal whose accumulator has a given value; the values are those a
  metal holds after nine and after ten invocations of the reaction
  (0.8999999999999999 and 0.9999999999999999).\<close>

definition corrodedMetalEngine :: "real \<Rightarrow> engine" where
  "corrodedMetalEngine c =
     (newEngine 2 1)\<lparr>grid := [[Some (plainParticle ''acid'' 0 0),
                                 Some ((plainParticle ''metal'' 1 0)\<lparr>corrosion := Some (Num c)\<rparr>)]],
                      particleCount := 2\<rparr>"

definition afterNine :: real where
  "afterNine = 2026619832316723 / 2251799813685248"

definition afterTen :: real where
  "afterTen = 9007199254740991 / 9007199254740992"

definition afterEleven :: real where
  "afterEleven = 4953959590107545 / 4503599627370496"



definition sandEngine :: engine where
  "sandEngine =
     (newEngine 2 2)\<lparr>grid := [[Some (plainParticle ''sand'' 0 0), None], [None, None]],
                      particleCount := 1\<rparr>"

section \<open>Properties of the grid primitives\<close>


lemma rhead_halfRnd: "rhead halfRnd = 1/2"
  by (simp add: rhead_def halfRnd_def Abs_draw_inverse)
lemma rtail_halfRnd: "rtail halfRnd = halfRnd"
  by (simp add: rtail_def halfRnd_def)

lemma grid_markActive: "grid (markActive e x y) = grid e"
  by (simp add: markActive_def)
lemma dims_markActive: "width (markActive e x y) = width e" "height (markActive e x y) = height e"
  "particleCount (markActive e x y) = particleCount e"
  by (simp_all add: markActive_def)
lemma dims_setCell: "width (setCell e x y v) = width e" "height (setCell e x y v) = height e"
  "particleCount (setCell e x y v) = particleCount e" "activeRegions (setCell e x y v) = activeRegions e"
  by (simp_all add: setCell_def)

lemma wf_markActive: "wf_engine (markActive e x y) = wf_engine e"
  by (simp add: wf_engine_def markActive_def)
lemma wf_particleCount_update: "wf_engine (e\<lparr>particleCount := n\<rparr>) = wf_engine e"
  by (simp add: wf_engine_def)

lemma wf_setCell: "wf_engine e \<Longrightarrow> wf_engine (setCell e x y v)"
proof -
  assume wf: "wf_engine e"
  have "length ((grid e)[nat y := (grid e ! nat y)[nat x := v]] ! n) = nat (width e)"
    if "n < length (grid e)" for n
  proof (cases "n = nat y")
    case True
    with that wf show ?thesis by (simp add: wf_engine_def list_all_length)
  next
    case False
    with that wf show ?thesis by (simp add: wf_engine_def list_all_length)
  qed
  with wf show ?thesis
    by (simp add: wf_engine_def setCell_def list_all_length)
qed

lemma outOfBounds_setCell: "outOfBounds (setCell e x y v) a b = outOfBounds e a b"
  by (simp add: outOfBounds_def setCell_def)
lemma outOfBounds_markActive: "outOfBounds (markActive e x y) a b = outOfBounds e a b"
  by (simp add: outOfBounds_def markActive_def)

lemma cellAt_markActive: "cellAt (markActive e x y) a b = cellAt e a b"
  by (simp add: cellAt_def outOfBounds_markActive grid_markActive)
lemma cellAt_particleCount_update: "cellAt (e\<lparr>particleCount := n\<rparr>) a b = cellAt e a b"
  by (simp add: cellAt_def outOfBounds_def)

lemma cellAt_setCell:
  assumes "wf_engine e" "\<not> outOfBounds e x y"
  shows "cellAt (setCell e x y v) a b = (if a = x \<and> b = y then v else cellAt e a b)"
proof (cases "outOfBounds e a b")
  case True
  with assms show ?thesis by (auto simp: cellAt_def outOfBounds_setCell)
next
  case False
  from assms False have len: "nat y < length (grid e)" "nat b < length (grid e)"
    by (auto simp: wf_engine_def outOfBounds_def)
  from assms have rows: "\<And>k. k < length (grid e) \<Longrightarrow> length (grid e ! k) = nat (width e)"
    by (auto simp: wf_engine_def list_all_length)
  from assms False have xs: "nat x < nat (width e)" "nat a < nat (width e)" "0 \<le> x" "0 \<le> a" "0 \<le> y" "0 \<le> b"
    by (auto simp: outOfBounds_def)
  show ?thesis
    using False len rows[OF len(1)] xs
    by (auto simp: cellAt_def outOfBounds_def setCell_def nth_list_update)
qed

lemma count_row_update:
  "i < length row \<Longrightarrow>
   int (length (filter P (row[i := v]))) =
   int (length (filter P row)) - (if P (row ! i) then 1 else 0) + (if P v then 1 else 0)"
proof (induction row arbitrary: i)
  case Nil
  then show ?case by simp
next
  case (Cons c row)
  show ?case
  proof (cases i)
    case 0
    then show ?thesis by simp
  next
    case (Suc j)
    with Cons.prems have "j < length row" by simp
    from Cons.IH[OF this] Suc show ?thesis by (auto split: if_splits)
  qed
qed

lemma sum_list_int_update:
  "k < length xs \<Longrightarrow> (\<Sum>z\<leftarrow>xs[k := v]. f z) = (\<Sum>z\<leftarrow>xs. (f z :: int)) - f (xs ! k) + f v"
proof (induction xs arbitrary: k)
  case Nil
  then show ?case by simp
next
  case (Cons c xs)
  then show ?case by (cases k) auto
qed

lemma count_setCell:
  assumes "wf_engine e" "\<not> outOfBounds e x y"
  shows "countParticles (setCell e x y v) =
         countParticles e - (if cellAt e x y \<noteq> None then 1 else 0) + (if v \<noteq> None then 1 else 0)"
proof -
  from assms have len: "nat y < length (grid e)"
    by (auto simp: wf_engine_def outOfBounds_def)
  from assms len have row: "nat x < length (grid e ! nat y)"
    by (auto simp: wf_engine_def list_all_length outOfBounds_def)
  show ?thesis
    using assms(2) len row
    by (simp add: countParticles_def setCell_def sum_list_int_update count_row_update cellAt_def)
qed

lemma countParticles_markActive: "countParticles (markActive e x y) = countParticles e"
  by (simp add: countParticles_def grid_markActive)
lemma countParticles_particleCount_update: "countParticles (e\<lparr>particleCount := n\<rparr>) = countParticles e"
  by (simp add: countParticles_def)

lemmas frame_simps = grid_markActive dims_markActive dims_setCell wf_markActive
  wf_particleCount_update outOfBounds_setCell outOfBounds_markActive cellAt_markActive
  cellAt_particleCount_update countParticles_markActive countParticles_particleCount_update

lemma outOfBounds_particleCount_update: "outOfBounds (e\<lparr>particleCount := n\<rparr>) a b = outOfBounds e a b"
  by (simp add: outOfBounds_def)

lemma createParticle_inv:
  assumes "wf_engine e" "count_inv e"
  shows "wf_engine (fst (snd (createParticle e x y t r))) \<and> count_inv (fst (snd (createParticle e x y t r)))"
proof (cases "outOfBounds e x y")
  case True
  with assms show ?thesis by (simp add: createParticle_def outOfBounds_def)
next
  case False
  then have nb: "\<not> (x < 0 \<or> x \<ge> width e \<or> y < 0 \<or> y \<ge> height e)"
    by (simp add: outOfBounds_def)
  show ?thesis
    using assms nb False
    by (auto simp: createParticle_def count_inv_def frame_simps wf_setCell count_setCell
             split: prod.splits option.splits)
qed

lemma removeParticle_inv:
  assumes "wf_engine e" "count_inv e"
  shows "wf_engine (snd (removeParticle e x y)) \<and> count_inv (snd (removeParticle e x y))"
proof (cases "outOfBounds e x y")
  case True
  with assms show ?thesis by (simp add: removeParticle_def outOfBounds_def)
next
  case False
  then have nb: "\<not> (x < 0 \<or> x \<ge> width e \<or> y < 0 \<or> y \<ge> height e)"
    by (simp add: outOfBounds_def)
  show ?thesis
    using assms nb False
    by (auto simp: removeParticle_def count_inv_def frame_simps wf_setCell count_setCell)
qed

lemma changeParticleType_inv:
  assumes "wf_engine e" "count_inv e"
  shows "wf_engine (fst (snd (changeParticleType e x y t r))) \<and>
         count_inv (fst (snd (changeParticleType e x y t r)))"
proof (cases "outOfBounds e x y")
  case True
  with assms show ?thesis by (simp add: changeParticleType_def outOfBounds_def)
next
  case False
  then have nb: "\<not> (x < 0 \<or> x \<ge> width e \<or> y < 0 \<or> y \<ge> height e)"
    by (simp add: outOfBounds_def)
  show ?thesis
    using assms nb False
    by (auto simp: changeParticleType_def count_inv_def frame_simps wf_setCell count_setCell
             split: prod.splits option.splits)
qed

lemma moveParticle_inv:
  assumes "wf_engine e" "count_inv e"
  shows "wf_engine (snd (moveParticle e x y x2 y2)) \<and> count_inv (snd (moveParticle e x y x2 y2))"
proof (cases "outOfBounds e x y \<or> outOfBounds e x2 y2")
  case True
  with assms show ?thesis by (auto simp: moveParticle_def outOfBounds_def)
next
  case False
  then have nb: "\<not> (x < 0 \<or> x \<ge> width e \<or> y < 0 \<or> y \<ge> height e \<or>
                     x2 < 0 \<or> x2 \<ge> width e \<or> y2 < 0 \<or> y2 \<ge> height e)"
    by (simp add: outOfBounds_def)
  from False have b1: "\<not> outOfBounds e x y" and b2: "\<not> outOfBounds e x2 y2" by simp_all
  show ?thesis
  proof (cases "cellAt e x y")
    case None
    with assms nb show ?thesis by (simp add: moveParticle_def)
  next
    case (Some p)
    show ?thesis
    proof (cases "cellAt e x2 y2 = None")
      case False
      with assms nb Some show ?thesis by (auto simp: moveParticle_def)
    next
      case True
      let ?e1 = "setCell e x2 y2 (Some (p\<lparr>px := x2, py := y2, updated := True\<rparr>))"
      have wf1: "wf_engine ?e1" using assms(1) by (rule wf_setCell)
      have ne: "\<not> (x = x2 \<and> y = y2)" using Some True by auto
      have c1: "cellAt ?e1 x y = Some p"
        using ne Some by (auto simp: cellAt_setCell[OF assms(1) b2])
      have n1: "countParticles ?e1 = countParticles e + 1"
        using True by (simp add: count_setCell[OF assms(1) b2])
      have n2: "countParticles (setCell ?e1 x y None) = countParticles e"
        using c1 n1 b1 by (simp add: count_setCell[OF wf1] frame_simps)
      show ?thesis
        using assms nb Some True n2 wf1
        by (simp add: moveParticle_def count_inv_def frame_simps wf_setCell)
    qed
  qed
qed

lemma swapParticles_inv:
  assumes "wf_engine e" "count_inv e"
  shows "wf_engine (snd (swapParticles e x y x2 y2)) \<and> count_inv (snd (swapParticles e x y x2 y2))"
proof (cases "outOfBounds e x y \<or> outOfBounds e x2 y2")
  case True
  with assms show ?thesis by (auto simp: swapParticles_def outOfBounds_def)
next
  case False
  then have nb: "\<not> (x < 0 \<or> x \<ge> width e \<or> y < 0 \<or> y \<ge> height e \<or>
                     x2 < 0 \<or> x2 \<ge> width e \<or> y2 < 0 \<or> y2 \<ge> height e)"
    by (simp add: outOfBounds_def)
  from False have b1: "\<not> outOfBounds e x y" and b2: "\<not> outOfBounds e x2 y2" by simp_all
  show ?thesis
  proof (cases "cellAt e x y")
    case None
    with assms nb show ?thesis by (simp add: swapParticles_def)
  next
    case (Some a)
    show ?thesis
    proof (cases "cellAt e x2 y2")
      case None
      with assms nb Some show ?thesis by (simp add: swapParticles_def)
    next
      case b: (Some b)
      let ?e1 = "setCell e x y (Some (b\<lparr>px := x, py := y, updated := True\<rparr>))"
      have wf1: "wf_engine ?e1" using assms(1) by (rule wf_setCell)
      have c1: "cellAt ?e1 x2 y2 \<noteq> None"
        using b by (simp add: cellAt_setCell[OF assms(1) b1])
      have n1: "countParticles ?e1 = countParticles e"
        using Some by (simp add: count_setCell[OF assms(1) b1])
      have n2: "countParticles (setCell ?e1 x2 y2 (Some (a\<lparr>px := x2, py := y2, updated := True\<rparr>)))
                = countParticles e"
        using c1 n1 b2 by (simp add: count_setCell[OF wf1] frame_simps)
      show ?thesis
        using assms nb Some b n2 wf1
        by (simp add: swapParticles_def count_inv_def frame_simps wf_setCell)
    qed
  qed
qed

lemma sum_list_replicate_zero: "(\<Sum>row\<leftarrow>replicate n c. (0::int)) = 0"
  by (induction n) simp_all

lemma newEngine_inv: "0 \<le> w \<Longrightarrow> 0 \<le> h \<Longrightarrow> wf_engine (newEngine w h) \<and> count_inv (newEngine w h)"
  by (simp add: wf_engine_def count_inv_def countParticles_def newEngine_def list_all_length
                sum_list_replicate)

lemma reachable_inv: "reachable e \<Longrightarrow> wf_engine e \<and> count_inv e"
proof (induction rule: reachable.induct)
  case (init w h)
  then show ?case by (rule newEngine_inv)
next
  case (create e x y t r)
  then show ?case using createParticle_inv by blast
next
  case (remove e x y)
  then show ?case using removeParticle_inv by blast
next
  case (move e x y x2 y2)
  then show ?case using moveParticle_inv by blast
next
  case (swap e x y x2 y2)
  then show ?case using swapParticles_inv by blast
next
  case (change e x y t r)
  then show ?case using changeParticleType_inv by blast
qed

text \<open>
  Claim C4. In every engine state reachable from the constructor through
  \<^verbatim>\<open>createParticle\<close>, \<^verbatim>\<open>removeParticle\<close>, \<^verbatim>\<open>moveParticle\<close>, \<^verbatim>\<open>swapParticles\<close> and
  \<^verbatim>\<open>changeParticleType\<close>, the field \<^verbatim>\<open>particleCount\<close> equals the number of non-empty
  cells of the grid; and each of the five primitives, applied with any arguments to a
  well-formed engine in which the equality holds, returns an engine in which it holds.
\<close>

theorem C4_particle_count_invariant:
  "(reachable e \<longrightarrow> particleCount e = countParticles e) \<and>
   (wf_engine e \<and> particleCount e = countParticles e \<longrightarrow>
      count_inv (fst (snd (createParticle e x y t r))) \<and>
      count_inv (snd (removeParticle e x y)) \<and>
      count_inv (snd (moveParticle e x y x2 y2)) \<and>
      count_inv (snd (swapParticles e x y x2 y2)) \<and>
      count_inv (fst (snd (changeParticleType e x y t r))))"
proof (intro conjI impI)
  assume "reachable e"
  then show "particleCount e = countParticles e"
    using reachable_inv by (simp add: count_inv_def)
next
  assume a: "wf_engine e \<and> particleCount e = countParticles e"
  then have wf: "wf_engine e" and ci: "count_inv e" by (simp_all add: count_inv_def)
  show "count_inv (fst (snd (createParticle e x y t r)))"
    using createParticle_inv[OF wf ci] by simp
  show "count_inv (snd (removeParticle e x y))"
    using removeParticle_inv[OF wf ci] by simp
  show "count_inv (snd (moveParticle e x y x2 y2))"
    using moveParticle_inv[OF wf ci] by simp
  show "count_inv (snd (swapParticles e x y x2 y2))"
    using swapParticles_inv[OF wf ci] by simp
  show "count_inv (fst (snd (changeParticleType e x y t r)))"
    using changeParticleType_inv[OF wf ci] by simp
qed

lemma nat_numeral_simps: "nat 2 = Suc (Suc 0)" "nat 3 = Suc (Suc (Suc 0))" "nat 1 = Suc 0"
  by simp_all

lemmas eval_defs = createParticle_def removeParticle_def moveParticle_def swapParticles_def
  changeParticleType_def cellAt_def setCell_def outOfBounds_def newEngine_def
  Particles_createParticle_def ELEMENTS_def elementTable_def mkElement_def markActive_def
  markRegionActive_def offsets9_def set_add_def rhead_halfRnd rtail_halfRnd randomInt_def
  nat_numeral_simps objectPrototypeKeys_def inheritedProperty_def

theorem C4_particle_count_invariant_witness:
  "reachable (fst (snd (createParticle (newEngine 2 2) 0 0 ''wall'' halfRnd))) \<and>
   particleCount (fst (snd (createParticle (newEngine 2 2) 0 0 ''wall'' halfRnd))) = 1 \<and>
   countParticles (fst (snd (createParticle (newEngine 2 2) 0 0 ''wall'' halfRnd))) = 1 \<and>
   wf_engine (newEngine 2 2) \<and> particleCount (newEngine 2 2) = countParticles (newEngine 2 2) \<and>
   count_inv (snd (moveParticle (newEngine 2 2) 0 0 1 1))"
proof -
  let ?e = "fst (snd (createParticle (newEngine 2 2) 0 0 ''wall'' halfRnd))"
  have r: "reachable ?e"
    by (rule reachable.create, rule reachable.init) simp_all
  have n: "particleCount ?e = 1"
    by (simp add: eval_defs)
  have w: "wf_engine (newEngine 2 2) \<and> particleCount (newEngine 2 2) = countParticles (newEngine 2 2)"
    using newEngine_inv[of 2 2] by (simp add: count_inv_def)
  from C4_particle_count_invariant[of ?e] r n
    C4_particle_count_invariant[of "newEngine 2 2" 0 0 "''wall''" halfRnd 1 1] w
  show ?thesis by simp
qed

text \<open>
  Claim C6. When a coordinate pair lies outside the grid, each mutation primitive that
  receives it (as its only pair, or as either of its two pairs) returns \<^verbatim>\<open>false\<close> and
  the engine it returns is the engine it received: grid, \<^verbatim>\<open>particleCount\<close> and active
  regions are unchanged. The bounds test is the first statement of each primitive and
  returns before any cell is read, so no exception can be raised on this path.
\<close>

theorem C6_out_of_bounds_rejected:
  "outOfBounds e x y \<Longrightarrow>
     createParticle e x y t r = (False, e, r) \<and>
     removeParticle e x y = (False, e) \<and>
     changeParticleType e x y t r = (False, e, r) \<and>
     moveParticle e x y x2 y2 = (False, e) \<and>
     moveParticle e x2 y2 x y = (False, e) \<and>
     swapParticles e x y x2 y2 = (False, e) \<and>
     swapParticles e x2 y2 x y = (False, e)"
  by (auto simp: outOfBounds_def createParticle_def removeParticle_def changeParticleType_def
                 moveParticle_def swapParticles_def)

theorem C6_out_of_bounds_rejected_witness:
  "outOfBounds (newEngine 3 3) 3 0 \<and>
   createParticle (newEngine 3 3) 3 0 ''sand'' halfRnd = (False, newEngine 3 3, halfRnd) \<and>
   removeParticle (newEngine 3 3) 3 0 = (False, newEngine 3 3) \<and>
   moveParticle (newEngine 3 3) 1 1 3 0 = (False, newEngine 3 3) \<and>
   swapParticles (newEngine 3 3) 1 1 3 0 = (False, newEngine 3 3)"
proof -
  have h: "outOfBounds (newEngine 3 3) 3 0"
    by (simp add: outOfBounds_def newEngine_def)
  from C6_out_of_bounds_rejected[OF h, of "''sand''" halfRnd 1 1] h
  show ?thesis by simp
qed


section \<open>Properties of the scheduler\<close>

lemma rhead_bounds: "0 \<le> rhead r" "rhead r < 1"
  using Rep_draw[of "r 0"] by (simp_all add: rhead_def)

lemma randomIndex_less: "0 < n \<Longrightarrow> randomIndex n r < n"
proof -
  assume n: "0 < n"
  have "rhead r * real n < real n"
    using rhead_bounds(2)[of r] n by simp
  then have "\<lfloor>rhead r * real n\<rfloor> < int n"
    by (simp add: floor_less_iff)
  moreover have "0 \<le> \<lfloor>rhead r * real n\<rfloor>"
    using rhead_bounds(1)[of r] by simp
  ultimately show ?thesis
    by (simp add: randomIndex_def nat_less_iff)
qed

lemma mset_shuffleLoop: "i < length xs \<Longrightarrow> mset (fst (shuffleLoop i xs r)) = mset xs"
proof (induction i arbitrary: xs r)
  case 0
  then show ?case by simp
next
  case (Suc i)
  let ?j = "randomIndex (Suc i + 1) r"
  have j: "?j < length xs"
    using randomIndex_less[of "Suc i + 1" r] Suc.prems by simp
  have sw: "mset (xs[Suc i := xs ! ?j, ?j := xs ! Suc i]) = mset xs"
    using mset_swap[OF j Suc.prems] .
  have "i < length (xs[Suc i := xs ! ?j, ?j := xs ! Suc i])"
    using Suc.prems by simp
  from Suc.IH[OF this] sw show ?case
    by (simp add: Let_def)
qed

lemma mset_shuffle: "mset (fst (shuffle xs r)) = mset xs"
proof (cases xs)
  case Nil
  then show ?thesis by (simp add: shuffle_def)
next
  case (Cons a list)
  then show ?thesis by (simp add: shuffle_def mset_shuffleLoop)
qed

lemma concat_map_nth:
  assumes "k < length ys * length xs"
  shows "concat (map (\<lambda>y. map (\<lambda>x. f x y) xs) ys) ! k = f (xs ! (k mod length xs)) (ys ! (k div length xs))"
  using assms
proof (induction ys arbitrary: k)
  case Nil
  then show ?case by simp
next
  case (Cons y ys)
  show ?case
  proof (cases "k < length xs")
    case True
    then show ?thesis by (simp add: nth_append)
  next
    case False
    then have ge: "length xs \<le> k" by simp
    from Cons.prems have "k - length xs < length ys * length xs" using ge by simp
    moreover have pos: "0 < length xs" using Cons.prems by (cases xs) simp_all
    moreover have "k div length xs = Suc ((k - length xs) div length xs)"
      using le_div_geq[OF pos ge] .
    moreover have "k mod length xs = (k - length xs) mod length xs"
      using le_mod_geq[OF ge] .
    ultimately show ?thesis
      using Cons.IH[of "k - length xs"] False by (simp add: nth_append)
  qed
qed

lemma length_concat_map:
  "length (concat (map (\<lambda>y. map (\<lambda>x. f x y) xs) ys)) = length ys * length xs"
  by (induction ys) simp_all



lemma activeOnly_iff: "activeOnly e \<longleftrightarrow> \<not> (updateCount e mod 5 = 0 \<or> activeRegions e = [])"
  by (auto simp: activeOnly_def)

lemma columns_nth: "i < nat (width e) \<Longrightarrow> columns e ! i = int i"
  by (simp add: columns_def)
lemma rows_nth: "i < nat (height e) \<Longrightarrow> rows e ! i = int i"
  by (simp add: rows_def)
lemma length_columns: "length (columns e) = nat (width e)"
  by (simp add: columns_def)
lemma length_rows: "length (rows e) = nat (height e)"
  by (simp add: rows_def)

lemma raster_down_nth:
  assumes "k < nat (height e) * nat (width e)"
  shows "concat (map (\<lambda>y. map (\<lambda>x. (x, y)) (columns e)) (rev (rows e))) ! k =
         (int (k mod nat (width e)), int (nat (height e) - 1 - k div nat (width e)))"
proof -
  have wpos: "0 < nat (width e)" using assms by (cases "nat (width e)") simp_all
  have d: "k div nat (width e) < nat (height e)"
    using assms by (simp add: less_mult_imp_div_less)
  have m: "k mod nat (width e) < nat (width e)" using wpos by simp
  have "concat (map (\<lambda>y. map (\<lambda>x. (x, y)) (columns e)) (rev (rows e))) ! k =
        (columns e ! (k mod nat (width e)), rev (rows e) ! (k div nat (width e)))"
    using concat_map_nth[of k "rev (rows e)" "columns e" "\<lambda>x y. (x, y)"] assms
    by (simp add: length_columns length_rows)
  also have "rev (rows e) ! (k div nat (width e)) = int (nat (height e) - 1 - k div nat (width e))"
    using d by (simp add: rev_nth length_rows rows_nth)
  finally show ?thesis using m by (simp add: columns_nth)
qed

lemma raster_up_nth:
  assumes "k < nat (height e) * nat (width e)"
  shows "concat (map (\<lambda>y. map (\<lambda>x. (x, y)) (columns e)) (rows e)) ! k =
         (int (k mod nat (width e)), int (k div nat (width e)))"
proof -
  have wpos: "0 < nat (width e)" using assms by (cases "nat (width e)") simp_all
  have d: "k div nat (width e) < nat (height e)"
    using assms by (simp add: less_mult_imp_div_less)
  have m: "k mod nat (width e) < nat (width e)" using wpos by simp
  have "concat (map (\<lambda>y. map (\<lambda>x. (x, y)) (columns e)) (rows e)) ! k =
        (columns e ! (k mod nat (width e)), rows e ! (k div nat (width e)))"
    using concat_map_nth[of k "rows e" "columns e" "\<lambda>x y. (x, y)"] assms
    by (simp add: length_columns length_rows)
  then show ?thesis using m d by (simp add: columns_nth rows_nth)
qed

lemma raster_left_nth:
  assumes "k < nat (width e) * nat (height e)"
  shows "concat (map (\<lambda>x. map (\<lambda>y. (x, y)) (rows e)) (columns e)) ! k =
         (int (k div nat (height e)), int (k mod nat (height e)))"
proof -
  have hpos: "0 < nat (height e)" using assms by (cases "nat (height e)") simp_all
  have d: "k div nat (height e) < nat (width e)"
    using assms by (simp add: less_mult_imp_div_less)
  have m: "k mod nat (height e) < nat (height e)" using hpos by simp
  have "concat (map (\<lambda>x. map (\<lambda>y. (x, y)) (rows e)) (columns e)) ! k =
        (columns e ! (k div nat (height e)), rows e ! (k mod nat (height e)))"
    using concat_map_nth[of k "columns e" "rows e" "\<lambda>y x. (x, y)"] assms
    by (simp add: length_columns length_rows)
  then show ?thesis using m d by (simp add: columns_nth rows_nth)
qed

lemma raster_right_nth:
  assumes "k < nat (width e) * nat (height e)"
  shows "concat (map (\<lambda>x. map (\<lambda>y. (x, y)) (rows e)) (rev (columns e))) ! k =
         (int (nat (width e) - 1 - k div nat (height e)), int (k mod nat (height e)))"
proof -
  have hpos: "0 < nat (height e)" using assms by (cases "nat (height e)") simp_all
  have d: "k div nat (height e) < nat (width e)"
    using assms by (simp add: less_mult_imp_div_less)
  have m: "k mod nat (height e) < nat (height e)" using hpos by simp
  have "concat (map (\<lambda>x. map (\<lambda>y. (x, y)) (rows e)) (rev (columns e))) ! k =
        (rev (columns e) ! (k div nat (height e)), rows e ! (k mod nat (height e)))"
    using concat_map_nth[of k "rev (columns e)" "rows e" "\<lambda>y x. (x, y)"] assms
    by (simp add: length_columns length_rows)
  also have "rev (columns e) ! (k div nat (height e)) = int (nat (width e) - 1 - k div nat (height e))"
    using d by (simp add: rev_nth length_columns columns_nth)
  finally show ?thesis using m by (simp add: rows_nth)
qed

text \<open>
  Claim C8. On a tick whose counter is a multiple of 5, or whose active-region set is
  empty, the visit order is the full scan of the grid that the gravity direction fixes:
  for gravity down, the rows from the bottom one to the top one and each row from left to
  right (entry \<open>k\<close> is column \<open>k mod width\<close> of row \<open>height - 1 - k div width\<close>); for up, the rows
  from top to bottom; for left, the columns from left to right and each column from top
  to bottom; for right, the columns from right to left; for any other gravity value, a
  shuffle of all the cells. On every other tick the visit order is the active-region set
  itself, in the set's own order for the four directions and shuffled otherwise.
\<close>

theorem C8_visit_order:
  "(updateCount e mod 5 = 0 \<or> activeRegions e = [] \<longrightarrow>
      length (fst (updateOrder e r)) = nat (width e) * nat (height e) \<and>
      (gravity e = ''down'' \<longrightarrow>
         (\<forall>k < nat (width e) * nat (height e). fst (updateOrder e r) ! k =
            (int (k mod nat (width e)), int (nat (height e) - 1 - k div nat (width e))))) \<and>
      (gravity e = ''up'' \<longrightarrow>
         (\<forall>k < nat (width e) * nat (height e). fst (updateOrder e r) ! k =
            (int (k mod nat (width e)), int (k div nat (width e))))) \<and>
      (gravity e = ''left'' \<longrightarrow>
         (\<forall>k < nat (width e) * nat (height e). fst (updateOrder e r) ! k =
            (int (k div nat (height e)), int (k mod nat (height e))))) \<and>
      (gravity e = ''right'' \<longrightarrow>
         (\<forall>k < nat (width e) * nat (height e). fst (updateOrder e r) ! k =
            (int (nat (width e) - 1 - k div nat (height e)), int (k mod nat (height e))))) \<and>
      (gravity e \<notin> {''down'', ''up'', ''left'', ''right''} \<longrightarrow>
         mset (fst (updateOrder e r)) =
         mset (concat (map (\<lambda>y. map (\<lambda>x. (x, y)) (columns e)) (rows e))))) \<and>
   (\<not> (updateCount e mod 5 = 0 \<or> activeRegions e = []) \<longrightarrow>
      (gravity e \<in> {''down'', ''up'', ''left'', ''right''} \<longrightarrow> fst (updateOrder e r) = activeRegions e) \<and>
      mset (fst (updateOrder e r)) = mset (activeRegions e))"
proof (intro conjI impI)
  assume full: "updateCount e mod 5 = 0 \<or> activeRegions e = []"
  then have na: "\<not> activeOnly e" by (simp add: activeOnly_iff)
  have len: "length (fst (getRandomOrder e r)) = nat (width e) * nat (height e)"
    using na mset_shuffle[of "concat (map (\<lambda>y. map (\<lambda>x. (x, y)) (columns e)) (rows e))" r]
          mset_eq_length[of "fst (shuffle (concat (map (\<lambda>y. map (\<lambda>x. (x, y)) (columns e)) (rows e))) r)"]
    by (simp add: getRandomOrder_def length_concat_map length_columns length_rows mult.commute)
  show "length (fst (updateOrder e r)) = nat (width e) * nat (height e)"
    using na len
    by (simp add: updateOrder_def getBottomToTopOrder_def getTopToBottomOrder_def
                  getLeftToRightOrder_def getRightToLeftOrder_def length_concat_map
                  length_columns length_rows mult.commute)
  {
    assume "gravity e = ''down''"
    then show "\<forall>k < nat (width e) * nat (height e). fst (updateOrder e r) ! k =
            (int (k mod nat (width e)), int (nat (height e) - 1 - k div nat (width e)))"
      using na raster_down_nth[of _ e]
      by (simp add: updateOrder_def getBottomToTopOrder_def mult.commute)
  }
  {
    assume "gravity e = ''up''"
    then show "\<forall>k < nat (width e) * nat (height e). fst (updateOrder e r) ! k =
            (int (k mod nat (width e)), int (k div nat (width e)))"
      using na raster_up_nth[of _ e]
      by (simp add: updateOrder_def getTopToBottomOrder_def mult.commute)
  }
  {
    assume "gravity e = ''left''"
    then show "\<forall>k < nat (width e) * nat (height e). fst (updateOrder e r) ! k =
            (int (k div nat (height e)), int (k mod nat (height e)))"
      using na raster_left_nth[of _ e]
      by (simp add: updateOrder_def getLeftToRightOrder_def)
  }
  {
    assume "gravity e = ''right''"
    then show "\<forall>k < nat (width e) * nat (height e). fst (updateOrder e r) ! k =
            (int (nat (width e) - 1 - k div nat (height e)), int (k mod nat (height e)))"
      using na raster_right_nth[of _ e]
      by (simp add: updateOrder_def getRightToLeftOrder_def)
  }
  {
    assume "gravity e \<notin> {''down'', ''up'', ''left'', ''right''}"
    then show "mset (fst (updateOrder e r)) =
         mset (concat (map (\<lambda>y. map (\<lambda>x. (x, y)) (columns e)) (rows e)))"
      using na by (simp add: updateOrder_def getRandomOrder_def mset_shuffle)
  }
next
  assume "\<not> (updateCount e mod 5 = 0 \<or> activeRegions e = [])"
  then have a: "activeOnly e" by (simp add: activeOnly_iff)
  {
    assume "gravity e \<in> {''down'', ''up'', ''left'', ''right''}"
    then show "fst (updateOrder e r) = activeRegions e"
      using a by (auto simp: updateOrder_def getBottomToTopOrder_def getTopToBottomOrder_def
                    getLeftToRightOrder_def getRightToLeftOrder_def)
  }
  show "mset (fst (updateOrder e r)) = mset (activeRegions e)"
    using a by (simp add: updateOrder_def getBottomToTopOrder_def getTopToBottomOrder_def
                    getLeftToRightOrder_def getRightToLeftOrder_def getRandomOrder_def mset_shuffle)
qed


theorem C8_visit_order_witness:
  "(updateCount (newEngine 2 2) mod 5 = 0 \<or> activeRegions (newEngine 2 2) = []) \<and>
   gravity (newEngine 2 2) = ''down'' \<and>
   fst (updateOrder (newEngine 2 2) halfRnd) ! 0 = (0, 1) \<and>
   fst (updateOrder (newEngine 2 2) halfRnd) ! 1 = (1, 1) \<and>
   fst (updateOrder (newEngine 2 2) halfRnd) ! 2 = (0, 0) \<and>
   fst (updateOrder (newEngine 2 2) halfRnd) ! 3 = (1, 0) \<and>
   \<not> (updateCount activeTickEngine mod 5 = 0 \<or> activeRegions activeTickEngine = []) \<and>
   fst (updateOrder activeTickEngine halfRnd) = [(1, 0), (0, 0)]"
proof -
  have g: "gravity (newEngine 2 2) = ''down''" "updateCount (newEngine 2 2) mod 5 = 0"
    "nat (width (newEngine 2 2)) = 2" "nat (height (newEngine 2 2)) = 2"
    by (simp_all add: newEngine_def)
  from C8_visit_order[of "newEngine 2 2" halfRnd] g
  have a: "\<forall>k<4. fst (updateOrder (newEngine 2 2) halfRnd) ! k = (int (k mod 2), int (2 - 1 - k div 2))"
    by simp
  have k: "fst (updateOrder (newEngine 2 2) halfRnd) ! 0 = (0, 1)"
    "fst (updateOrder (newEngine 2 2) halfRnd) ! 1 = (1, 1)"
    "fst (updateOrder (newEngine 2 2) halfRnd) ! 2 = (0, 0)"
    "fst (updateOrder (newEngine 2 2) halfRnd) ! 3 = (1, 0)"
    using a[rule_format, of 0] a[rule_format, of 1] a[rule_format, of 2] a[rule_format, of 3]
    by simp_all
  have h: "\<not> (updateCount activeTickEngine mod 5 = 0 \<or> activeRegions activeTickEngine = [])"
    "gravity activeTickEngine = ''down''" "activeRegions activeTickEngine = [(1, 0), (0, 0)]"
    by (simp_all add: activeTickEngine_def newEngine_def)
  from C8_visit_order[of activeTickEngine halfRnd] h
  have b: "fst (updateOrder activeTickEngine halfRnd) = [(1, 0), (0, 0)]"
    by simp
  from g k h(1) b show ?thesis by simp
qed


text \<open>
  Claim C10. While the engine's \<^verbatim>\<open>active\<close> flag is false, \<^verbatim>\<open>update\<close> returns 0 and the
  engine it leaves is the engine it found: grid, particles, \<^verbatim>\<open>particleCount\<close>, active
  regions and \<^verbatim>\<open>updateCount\<close> are unchanged, and no random number is drawn.
\<close>

theorem C10_inactive_update_is_noop:
  "\<not> active e \<Longrightarrow> update hostSort e r = (0, e, r)"
  by (simp add: update_def)

theorem C10_inactive_update_is_noop_witness:
  "\<not> active pausedEngine \<and> cellAt pausedEngine 0 0 \<noteq> None \<and>
   update keepOrder pausedEngine halfRnd = (0, pausedEngine, halfRnd)"
proof -
  have h: "\<not> active pausedEngine"
    by (simp add: pausedEngine_def)
  have c: "cellAt pausedEngine 0 0 \<noteq> None"
    by (simp add: pausedEngine_def createParticle_def cellAt_def setCell_def outOfBounds_def
          newEngine_def Particles_createParticle_def ELEMENTS_def elementTable_def mkElement_def
          markActive_def)
  from C10_inactive_update_is_noop[OF h, of keepOrder halfRnd] h c show ?thesis by simp
qed


section \<open>Properties of compressed states and of the history\<close>

lemma exportCell_alt: "exportCell e x y = (case cellAt e x y of None \<Rightarrow> [] | Some p \<Rightarrow> [snapOf x y p])"
  by (simp add: exportCell_def)

lemma snapOf_coords: "sx (snapOf x y p) = x" "sy (snapOf x y p) = y"
  by (simp_all add: snapOf_def)

lemma importParticle_dims:
  "width (importParticle p e) = width e" "height (importParticle p e) = height e"
  "particleCount (importParticle p e) = particleCount e"
  by (simp_all add: importParticle_def frame_simps)

lemma importParticle_wf: "wf_engine e \<Longrightarrow> wf_engine (importParticle p e)"
  by (simp add: importParticle_def frame_simps wf_setCell)

lemma importLoop_fold:
  "\<forall>p\<in>set ps. 0 \<le> sy p \<and> sy p < height e \<Longrightarrow> importLoop ps e = Inr (fold importParticle ps e)"
  by (induction ps arbitrary: e) (auto simp: importParticle_dims)

lemma importParticle_outOfBounds: "outOfBounds (importParticle p e) a b = outOfBounds e a b"
  by (simp add: outOfBounds_def importParticle_dims)

lemma fold_import_dims:
  "width (fold importParticle ps e) = width e \<and> height (fold importParticle ps e) = height e \<and>
   particleCount (fold importParticle ps e) = particleCount e \<and>
   (wf_engine e \<longrightarrow> wf_engine (fold importParticle ps e))"
  by (induction ps arbitrary: e) (simp_all add: importParticle_dims importParticle_wf)

lemma importParticle_cellAt:
  assumes "wf_engine e" "\<not> outOfBounds e (sx p) (sy p)"
  shows "cellAt (importParticle p e) x y =
         (if sx p = x \<and> sy p = y then Some (restoreParticle p) else cellAt e x y)"
  using assms by (auto simp: importParticle_def frame_simps cellAt_setCell outOfBounds_def)

lemma fold_import_cellAt:
  assumes "wf_engine e" "\<forall>p\<in>set ps. \<not> outOfBounds e (sx p) (sy p)"
  shows "cellAt (fold importParticle ps e) x y =
         (case find (\<lambda>p. sx p = x \<and> sy p = y) (rev ps) of
            Some p \<Rightarrow> Some (restoreParticle p)
          | None \<Rightarrow> cellAt e x y)"
  using assms(2)
proof (induction ps rule: rev_induct)
  case Nil
  then show ?case by simp
next
  case (snoc p ps)
  let ?e1 = "fold importParticle ps e"
  have wf1: "wf_engine ?e1" using assms(1) fold_import_dims[of ps e] by simp
  have ob: "\<not> outOfBounds ?e1 (sx p) (sy p)"
    using snoc.prems fold_import_dims[of ps e] by (simp add: outOfBounds_def)
  have ih: "cellAt ?e1 x y =
         (case find (\<lambda>p. sx p = x \<and> sy p = y) (rev ps) of
            Some p \<Rightarrow> Some (restoreParticle p)
          | None \<Rightarrow> cellAt e x y)"
    using snoc by simp
  show ?case
    using importParticle_cellAt[OF wf1 ob, of x y] ih by simp
qed

lemma in_concat_map: "a \<in> set xs \<Longrightarrow> p \<in> set (f a) \<Longrightarrow> p \<in> set (concat (map f xs))"
  by auto

lemma find_Some_mem: "find P xs = Some x \<Longrightarrow> x \<in> set xs \<and> P x"
  by (induction xs) (auto split: if_splits)

lemma set_export_particles:
  "set (particles (exportCompressedState e)) =
   {snapOf x y q | x y q. 0 \<le> x \<and> x < width e \<and> 0 \<le> y \<and> y < height e \<and> cellAt e x y = Some q}"
  (is "?L = ?R")
proof (intro set_eqI iffI)
  fix p assume "p \<in> ?L"
  then obtain iy ix where i: "iy < nat (height e)" "ix < nat (width e)"
      and p: "p \<in> set (exportCell e (int ix) (int iy))"
    by (auto simp: exportCompressedState_def)
  from p obtain q where "cellAt e (int ix) (int iy) = Some q" "p = snapOf (int ix) (int iy) q"
    by (cases "cellAt e (int ix) (int iy)") (auto simp: exportCell_alt)
  moreover have "0 \<le> int ix \<and> int ix < width e \<and> 0 \<le> int iy \<and> int iy < height e"
    using i by auto
  ultimately show "p \<in> ?R" by blast
next
  fix p assume "p \<in> ?R"
  then obtain x y q where b: "0 \<le> x" "x < width e" "0 \<le> y" "y < height e"
      and c: "cellAt e x y = Some q" and p: "p = snapOf x y q"
    by blast
  have mx: "x \<in> set (map int [0..<nat (width e)])"
    using b by (auto simp: image_iff intro: bexI[of _ "nat x"])
  have my: "y \<in> set (map int [0..<nat (height e)])"
    using b by (auto simp: image_iff intro: bexI[of _ "nat y"])
  have pc: "p \<in> set (exportCell e x y)"
    using c p by (simp add: exportCell_alt)
  have "p \<in> set (concat (map (\<lambda>x. exportCell e x y) (map int [0..<nat (width e)])))"
    using mx pc by (rule in_concat_map)
  with my have "p \<in> set (concat (map (\<lambda>y. concat (map (\<lambda>x. exportCell e x y) (map int [0..<nat (width e)])))
                                     (map int [0..<nat (height e)])))"
    by (rule in_concat_map)
  then show "p \<in> ?L"
    by (simp add: exportCompressedState_def)
qed

lemma find_export:
  "find (\<lambda>p. sx p = x \<and> sy p = y) (rev (particles (exportCompressedState e))) =
   map_option (snapOf x y) (cellAt e x y)"
proof (cases "cellAt e x y")
  case None
  have "\<not> (\<exists>p\<in>set (rev (particles (exportCompressedState e))). sx p = x \<and> sy p = y)"
    using None by (auto simp: set_export_particles snapOf_coords)
  then show ?thesis using None by (simp add: find_None_iff)
next
  case (Some q)
  then have ib: "0 \<le> x \<and> x < width e \<and> 0 \<le> y \<and> y < height e"
    by (auto simp: cellAt_def outOfBounds_def split: if_splits)
  have mem: "snapOf x y q \<in> set (rev (particles (exportCompressedState e)))"
    using Some ib by (auto simp: set_export_particles)
  have uniq: "\<And>p. p \<in> set (rev (particles (exportCompressedState e))) \<Longrightarrow> sx p = x \<and> sy p = y
                \<Longrightarrow> p = snapOf x y q"
    using Some by (auto simp: set_export_particles snapOf_coords)
  have "find (\<lambda>p. sx p = x \<and> sy p = y) (rev (particles (exportCompressedState e))) \<noteq> None"
  proof
    assume "find (\<lambda>p. sx p = x \<and> sy p = y) (rev (particles (exportCompressedState e))) = None"
    then have "\<forall>p\<in>set (rev (particles (exportCompressedState e))). \<not> (sx p = x \<and> sy p = y)"
      by (simp add: find_None_iff)
    from bspec[OF this mem] show False by (simp add: snapOf_coords)
  qed
  then obtain p where f: "find (\<lambda>p. sx p = x \<and> sy p = y) (rev (particles (exportCompressedState e))) = Some p"
    by blast
  then have "p \<in> set (rev (particles (exportCompressedState e))) \<and> sx p = x \<and> sy p = y"
    by (auto dest: find_Some_mem)
  with uniq have "p = snapOf x y q" by blast
  with f Some show ?thesis by simp
qed

lemma cellAt_createGrid:
  "cellAt (e\<lparr>grid := createGrid e, particleCount := n, activeRegions := A\<rparr>) x y = None"
  by (auto simp: cellAt_def outOfBounds_def createGrid_def)

lemma wf_createGrid:
  "0 \<le> width e \<Longrightarrow> 0 \<le> height e \<Longrightarrow>
   wf_engine (e\<lparr>grid := createGrid e, particleCount := n, activeRegions := A\<rparr>)"
  by (simp add: wf_engine_def createGrid_def list_all_length)

text \<open>The import of an exported state into any engine of the same dimensions returns, and
  what it returns is the fresh grid with every entry placed.\<close>

lemma import_export_returns:
  assumes "width e0 = width e" "height e0 = height e"
  shows "importCompressedState e0 (exportCompressedState e) =
         Inr (fold importParticle (particles (exportCompressedState e))
                (e0\<lparr>grid := createGrid e0, particleCount := scount (exportCompressedState e),
                    activeRegions := []\<rparr>))"
  unfolding importCompressedState_def
  by (rule importLoop_fold) (auto simp: set_export_particles snapOf_coords assms)

lemma import_export_cellAt:
  assumes "wf_engine e" "width e0 = width e" "height e0 = height e"
      and "importCompressedState e0 (exportCompressedState e) = Inr e'"
  shows "cellAt e' x y = map_option (\<lambda>q. restoreParticle (snapOf x y q)) (cellAt e x y)"
proof -
  let ?st = "exportCompressedState e"
  let ?e0 = "e0\<lparr>grid := createGrid e0, particleCount := scount ?st, activeRegions := []\<rparr>"
  have nn: "0 \<le> width e0" "0 \<le> height e0"
    using assms(1-3) by (simp_all add: wf_engine_def)
  have wf0: "wf_engine ?e0" using nn by (rule wf_createGrid)
  have ib: "\<forall>p\<in>set (particles ?st). \<not> outOfBounds ?e0 (sx p) (sy p)"
    by (auto simp: set_export_particles snapOf_coords outOfBounds_def assms(2,3))
  have e': "e' = fold importParticle (particles ?st) ?e0"
    using assms(4) import_export_returns[OF assms(2,3)] by simp
  show ?thesis
    unfolding e'
    using fold_import_cellAt[OF wf0 ib, of x y]
    by (simp add: find_export cellAt_createGrid option.case_eq_if
                  option.map_comp comp_def map_option_case split: option.splits)
qed

lemma restore_snapOf:
  "restoreParticle (snapOf x y q) =
     \<lparr>ptype = ptype q, px = x, py = y, vx = None, vy = None, updated = False,
      life = life q, burning = burning q, corrosion = corrosion q, colorVariation = None\<rparr>"
  by (simp add: restoreParticle_def snapOf_def)

text \<open>
  Claim C5. Take any engine whose grid has the engine's dimensions, export its state, and
  import that state into any engine of the same dimensions, whatever that engine holds
  (the exporting engine itself, an empty one, one full of other particles). The import
  returns without an exception, and in the grid it leaves every cell holds a particle
  exactly when the cell of the exported grid did, with the same type and the same
  \<^verbatim>\<open>life\<close>, \<^verbatim>\<open>burning\<close> and \<^verbatim>\<open>corrosion\<close> (each absent when it was absent); so the set of
  triples (x, y, type) is the same, and exporting again gives the same compressed state.
\<close>

theorem C5_export_import_roundtrip:
  assumes "wf_engine e" "width e0 = width e" "height e0 = height e"
  shows "\<exists>e'. importCompressedState e0 (exportCompressedState e) = Inr e' \<and>
           (\<forall>x y. map_option (\<lambda>p. (ptype p, life p, burning p, corrosion p)) (cellAt e' x y) =
                  map_option (\<lambda>p. (ptype p, life p, burning p, corrosion p)) (cellAt e x y)) \<and>
           {(x, y, ptype p) | x y p. cellAt e' x y = Some p} =
           {(x, y, ptype p) | x y p. cellAt e x y = Some p} \<and>
           exportCompressedState e' = exportCompressedState e"
proof -
  let ?st = "exportCompressedState e"
  let ?e' = "fold importParticle (particles ?st)
               (e0\<lparr>grid := createGrid e0, particleCount := scount ?st, activeRegions := []\<rparr>)"
  have ret: "importCompressedState e0 ?st = Inr ?e'"
    using import_export_returns[OF assms(2,3)] .
  have cell: "\<And>x y. cellAt ?e' x y = map_option (\<lambda>q. restoreParticle (snapOf x y q)) (cellAt e x y)"
    using import_export_cellAt[OF assms ret] .
  have dims: "width ?e' = width e" "height ?e' = height e" "particleCount ?e' = particleCount e"
    using fold_import_dims[of "particles ?st"
            "e0\<lparr>grid := createGrid e0, particleCount := scount ?st, activeRegions := []\<rparr>"] assms(2,3)
    by (simp_all add: exportCompressedState_def)
  have c1: "\<forall>x y. map_option (\<lambda>p. (ptype p, life p, burning p, corrosion p)) (cellAt ?e' x y) =
        map_option (\<lambda>p. (ptype p, life p, burning p, corrosion p)) (cellAt e x y)"
    by (simp add: cell option.map_comp comp_def restore_snapOf)
  have c2: "{(x, y, ptype p) | x y p. cellAt ?e' x y = Some p} = {(x, y, ptype p) | x y p. cellAt e x y = Some p}"
    by (auto simp: cell restore_snapOf)
  have ec: "\<And>x y. exportCell ?e' x y = exportCell e x y"
    by (auto simp: exportCell_def cell snapOf_def restoreParticle_def split: option.splits)
  have c3: "exportCompressedState ?e' = exportCompressedState e"
    by (simp add: exportCompressedState_def[of ?e'] ec dims)
       (simp add: exportCompressedState_def)
  from ret c1 c2 c3 show ?thesis by blast
qed

theorem C5_export_import_roundtrip_witness:
  "wf_engine fireEngine \<and> width sandEngine = width fireEngine \<and> height sandEngine = height fireEngine \<and>
   map_option ptype (cellAt sandEngine 0 0) = Some ''sand'' \<and> cellAt sandEngine 1 0 = None \<and>
   (\<exists>e'. importCompressedState sandEngine (exportCompressedState fireEngine) = Inr e' \<and>
      map_option (\<lambda>p. (ptype p, life p, burning p, corrosion p)) (cellAt e' 1 0) =
        Some (''fire'', Some 70, None, None) \<and>
      cellAt e' 0 0 = None \<and>
      exportCompressedState e' = exportCompressedState fireEngine)"
proof -
  have r: "reachable fireEngine"
    unfolding fireEngine_def by (rule reachable.create, rule reachable.init) simp_all
  then have wf: "wf_engine fireEngine" using reachable_inv by blast
  have d: "width sandEngine = width fireEngine" "height sandEngine = height fireEngine"
    by (simp_all add: sandEngine_def fireEngine_def eval_defs)
  have s: "map_option ptype (cellAt sandEngine 0 0) = Some ''sand''" "cellAt sandEngine 1 0 = None"
    by (simp_all add: sandEngine_def plainParticle_def cellAt_def outOfBounds_def newEngine_def)
  have c: "map_option (\<lambda>p. (ptype p, life p, burning p, corrosion p)) (cellAt fireEngine 1 0) =
             Some (''fire'', Some 70, None, None)"
      "cellAt fireEngine 0 0 = None"
    by (simp_all add: fireEngine_def eval_defs)
  from C5_export_import_roundtrip[OF wf d] obtain e' where
    e': "importCompressedState sandEngine (exportCompressedState fireEngine) = Inr e' \<and>
           (\<forall>x y. map_option (\<lambda>p. (ptype p, life p, burning p, corrosion p)) (cellAt e' x y) =
                  map_option (\<lambda>p. (ptype p, life p, burning p, corrosion p)) (cellAt fireEngine x y)) \<and>
           {(x, y, ptype p) | x y p. cellAt e' x y = Some p} =
           {(x, y, ptype p) | x y p. cellAt fireEngine x y = Some p} \<and>
           exportCompressedState e' = exportCompressedState fireEngine" ..
  note ret = e'[THEN conjunct1]
   and cells = e'[THEN conjunct2, THEN conjunct1, rule_format]
   and again = e'[THEN conjunct2, THEN conjunct2, THEN conjunct2]
  have f: "map_option (\<lambda>p. (ptype p, life p, burning p, corrosion p)) (cellAt e' 1 0) =
        Some (''fire'', Some 70, None, None)"
    using cells[of 1 0] unfolding c(1) .
  have "map_option (\<lambda>p. (ptype p, life p, burning p, corrosion p)) (cellAt e' 0 0) = None"
    using cells[of 0 0] unfolding c(2) by simp
  then have n: "cellAt e' 0 0 = None" by simp
  have "\<exists>e'. importCompressedState sandEngine (exportCompressedState fireEngine) = Inr e' \<and>
      map_option (\<lambda>p. (ptype p, life p, burning p, corrosion p)) (cellAt e' 1 0) =
        Some (''fire'', Some 70, None, None) \<and>
      cellAt e' 0 0 = None \<and>
      exportCompressedState e' = exportCompressedState fireEngine"
    using ret f n again by (intro exI[of _ e'] conjI)
  with wf d s show ?thesis by (intro conjI)
qed
section \<open>Properties of the interaction resolver\<close>

lemma upt_small: "[0..<1] = [0]" "[0..<2] = [0, 1]" "[0..<3] = [0, 1, 2]"
  by (simp_all add: upt_rec)

lemmas react_defs = processParticleInteractions_def processInteraction_def REACTIONS_def
  acid_metal_def corrosionAt_def modifyCell_def offsets9_def

lemmas sched_defs = update_def updateStep_def updateOrder_def getBottomToTopOrder_def activeOnly_def
  columns_def rows_def upt_small resetUpdated_def pruneStatic_def element_update_def

lemmas acid_defs = acid_update_def water_update_def static_update_def startsWithSource_def freeAt_def


lemma rhead_lowRnd: "rhead lowRnd = 1/20"
  by (simp add: rhead_def lowRnd_def Abs_draw_inverse)
lemma rtail_lowRnd: "rtail lowRnd = lowRnd"
  by (simp add: rtail_def lowRnd_def)


lemma setCell_twice:
  assumes "wf_engine e" "\<not> outOfBounds e x y"
  shows "setCell (setCell e x y a) x y b = setCell e x y b"
proof -
  from assms have "nat y < length (grid e)"
    by (auto simp: wf_engine_def outOfBounds_def)
  then show ?thesis by (simp add: setCell_def)
qed

lemma removeParticle_wf: "wf_engine e \<Longrightarrow> wf_engine (snd (removeParticle e x y))"
  by (simp add: removeParticle_def frame_simps wf_setCell)

lemma removeParticle_outOfBounds: "outOfBounds (snd (removeParticle e x y)) a b = outOfBounds e a b"
  by (simp add: removeParticle_def outOfBounds_def frame_simps)

lemma removeParticle_cellAt:
  assumes "wf_engine e"
  shows "cellAt (snd (removeParticle e x y)) a b = (if a = x \<and> b = y then None else cellAt e a b)"
proof (cases "outOfBounds e x y")
  case True
  then have "cellAt e x y = None" by (simp add: cellAt_def)
  with True show ?thesis by (auto simp: removeParticle_def outOfBounds_def)
next
  case False
  then have nb: "\<not> (x < 0 \<or> x \<ge> width e \<or> y < 0 \<or> y \<ge> height e)"
    by (simp add: outOfBounds_def)
  show ?thesis
    using nb by (auto simp: removeParticle_def frame_simps cellAt_setCell[OF assms False])
qed

lemma modifyCell_Some:
  "cellAt e x y = Some p \<Longrightarrow> modifyCell e x y f = setCell e x y (Some (f p))"
  by (simp add: modifyCell_def)

lemma cellAt_Some_inBounds: "cellAt e x y = Some p \<Longrightarrow> \<not> outOfBounds e x y"
  by (auto simp: cellAt_def split: if_splits)


text \<open>The binade of a number, from the powers of two around it; and from it the double
  nearest to a positive number in the normal range.\<close>

lemma pow2_pos: "0 < pow2 k"
  by (simp add: pow2_def)

lemma binadeUp_eq: "2 ^ n \<le> a \<Longrightarrow> a < 2 ^ Suc n \<Longrightarrow> binadeUp a = int n"
proof (induction n arbitrary: a)
  case 0
  then show ?case by (simp add: binadeUp.simps[of a])
next
  case (Suc n)
  have "(1::real) \<le> 2 ^ n" by (rule one_le_power) simp
  moreover have "2 ^ Suc n = 2 * (2::real) ^ n" by simp
  ultimately have ge: "\<not> a < 2" using Suc.prems(1) by linarith
  have "binadeUp (a / 2) = int n"
    using Suc.prems by (intro Suc.IH) (simp_all add: field_simps)
  with ge show ?case by (simp add: binadeUp.simps[of a])
qed

lemma binadeDown_eq: "1 / 2 ^ Suc n \<le> a \<Longrightarrow> a < 1 / 2 ^ n \<Longrightarrow> binadeDown a = - int (Suc n)"
proof (induction n arbitrary: a)
  case 0
  then have a: "0 < a" "a < 1" "1 \<le> a * 2" by (simp_all add: field_simps)
  have "binadeDown (a * 2) = 0" using a(3) by (simp add: binadeDown.simps[of "a * 2"])
  with a show ?case by (simp add: binadeDown.simps[of a])
next
  case (Suc n)
  have p: "(0::real) < 1 / 2 ^ Suc (Suc n)" by simp
  have "(1::real) \<le> 2 ^ Suc n" by (rule one_le_power) simp
  then have "1 / 2 ^ Suc n \<le> (1::real)" by (simp add: field_simps)
  with Suc.prems p have a: "0 < a" "a < 1" by linarith+
  have "binadeDown (a * 2) = - int (Suc n)"
    using Suc.prems by (intro Suc.IH) (simp_all add: field_simps)
  with a show ?case by (simp add: binadeDown.simps[of a])
qed

lemma binade_eqI:
  assumes "pow2 e \<le> a" "a < pow2 (e + 1)"
  shows "binade a = e"
proof (cases "0 \<le> e")
  case True
  then have "2 ^ nat e \<le> a" "a < 2 ^ Suc (nat e)"
    using assms by (simp_all add: pow2_def nat_add_distrib)
  then have "binadeUp a = int (nat e)" by (rule binadeUp_eq)
  moreover have "1 \<le> a" using \<open>2 ^ nat e \<le> a\<close> one_le_power[of "2::real" "nat e"] by linarith
  ultimately show ?thesis using True by (simp add: binade_def)
next
  case False
  then obtain n where n: "e = - int (Suc n)"
    by (metis add.inverse_inverse int_cases linorder_not_le of_nat_0_le_iff not0_implies_Suc of_nat_0)
  have nn: "\<And>k. nat (int k + 1) = Suc k" by simp
  have lo: "1 / 2 ^ Suc n \<le> a" using assms(1) n by (simp add: pow2_def nn)
  have hi: "a < 1 / 2 ^ n" using assms(2) n by (cases n) (simp_all add: pow2_def nn)
  have "binadeDown a = - int (Suc n)" using lo hi by (rule binadeDown_eq)
  moreover have "(1::real) \<le> 2 ^ n" by (rule one_le_power) simp
  then have "1 / 2 ^ n \<le> (1::real)" by (simp add: field_simps)
  then have "\<not> 1 \<le> a" using hi by linarith
  ultimately show ?thesis using n by (simp add: binade_def)
qed

lemma roundDouble_posI:
  assumes "pow2 e \<le> x" "x < pow2 (e + 1)" "- 1022 \<le> e"
      and "roundHalfEven (x / pow2 (e - 52)) = m" "of_int m * pow2 (e - 52) < pow2 1024"
  shows "roundDouble x = Num (of_int m * pow2 (e - 52))"
proof -
  have x: "0 < x" using assms(1) pow2_pos[of e] by linarith
  have b: "binade x = e" using assms(1,2) by (rule binade_eqI)
  have mx: "max e (- 1022) = e" using assms(3) by simp
  show ?thesis
    using x assms(4,5) by (simp add: roundDouble_def Let_def b mx)
qed

text \<open>The additions of 0.1, computed: one, two and three invocations on a metal first
  touched leave 0.1, 0.2 and 0.30000000000000004; nine leave 0.8999999999999999, ten
  0.9999999999999999 and eleven 1.0999999999999999.\<close>

lemma plus_tenth_1: "jsPlus (Num 0) (Num tenth) = Num tenth"
proof -
  have "roundDouble (0 + tenth) = Num (of_int 7205759403792794 * pow2 (- 4 - 52))"
    by (rule roundDouble_posI) (simp_all add: pow2_def tenth_def roundHalfEven_def Let_def)
  then show ?thesis by (simp add: jsPlus.simps pow2_def tenth_def)
qed

lemma plus_tenth_2: "jsPlus (Num tenth) (Num tenth) = Num (3602879701896397 / 18014398509481984)"
proof -
  have "roundDouble (3602879701896397 / 36028797018963968 + tenth) = Num (of_int 7205759403792794 * pow2 (- 3 - 52))"
    by (rule roundDouble_posI) (simp_all add: pow2_def tenth_def roundHalfEven_def Let_def)
  then show ?thesis by (simp add: jsPlus.simps pow2_def tenth_def)
qed

lemma plus_tenth_3: "jsPlus (Num (3602879701896397 / 18014398509481984)) (Num tenth) = Num (1351079888211149 / 4503599627370496)"
proof -
  have "roundDouble (3602879701896397 / 18014398509481984 + tenth) = Num (of_int 5404319552844596 * pow2 (- 2 - 52))"
    by (rule roundDouble_posI) (simp_all add: pow2_def tenth_def roundHalfEven_def Let_def)
  then show ?thesis by (simp add: jsPlus.simps pow2_def tenth_def)
qed

lemma plus_tenth_4: "jsPlus (Num (1351079888211149 / 4503599627370496)) (Num tenth) = Num (3602879701896397 / 9007199254740992)"
proof -
  have "roundDouble (1351079888211149 / 4503599627370496 + tenth) = Num (of_int 7205759403792794 * pow2 (- 2 - 52))"
    by (rule roundDouble_posI) (simp_all add: pow2_def tenth_def roundHalfEven_def Let_def)
  then show ?thesis by (simp add: jsPlus.simps pow2_def tenth_def)
qed

lemma plus_tenth_5: "jsPlus (Num (3602879701896397 / 9007199254740992)) (Num tenth) = Num (1 / 2)"
proof -
  have "roundDouble (3602879701896397 / 9007199254740992 + tenth) = Num (of_int 4503599627370496 * pow2 (- 1 - 52))"
    by (rule roundDouble_posI) (simp_all add: pow2_def tenth_def roundHalfEven_def Let_def)
  then show ?thesis by (simp add: jsPlus.simps pow2_def tenth_def)
qed

lemma plus_tenth_6: "jsPlus (Num (1 / 2)) (Num tenth) = Num (5404319552844595 / 9007199254740992)"
proof -
  have "roundDouble (1 / 2 + tenth) = Num (of_int 5404319552844595 * pow2 (- 1 - 52))"
    by (rule roundDouble_posI) (simp_all add: pow2_def tenth_def roundHalfEven_def Let_def)
  then show ?thesis by (simp add: jsPlus.simps pow2_def tenth_def)
qed

lemma plus_tenth_7: "jsPlus (Num (5404319552844595 / 9007199254740992)) (Num tenth) = Num (3152519739159347 / 4503599627370496)"
proof -
  have "roundDouble (5404319552844595 / 9007199254740992 + tenth) = Num (of_int 6305039478318694 * pow2 (- 1 - 52))"
    by (rule roundDouble_posI) (simp_all add: pow2_def tenth_def roundHalfEven_def Let_def)
  then show ?thesis by (simp add: jsPlus.simps pow2_def tenth_def)
qed

lemma plus_tenth_8: "jsPlus (Num (3152519739159347 / 4503599627370496)) (Num tenth) = Num (7205759403792793 / 9007199254740992)"
proof -
  have "roundDouble (3152519739159347 / 4503599627370496 + tenth) = Num (of_int 7205759403792793 * pow2 (- 1 - 52))"
    by (rule roundDouble_posI) (simp_all add: pow2_def tenth_def roundHalfEven_def Let_def)
  then show ?thesis by (simp add: jsPlus.simps pow2_def tenth_def)
qed

lemma plus_tenth_9: "jsPlus (Num (7205759403792793 / 9007199254740992)) (Num tenth) = Num (2026619832316723 / 2251799813685248)"
proof -
  have "roundDouble (7205759403792793 / 9007199254740992 + tenth) = Num (of_int 8106479329266892 * pow2 (- 1 - 52))"
    by (rule roundDouble_posI) (simp_all add: pow2_def tenth_def roundHalfEven_def Let_def)
  then show ?thesis by (simp add: jsPlus.simps pow2_def tenth_def)
qed

lemma plus_tenth_10: "jsPlus (Num (2026619832316723 / 2251799813685248)) (Num tenth) = Num (9007199254740991 / 9007199254740992)"
proof -
  have "roundDouble (2026619832316723 / 2251799813685248 + tenth) = Num (of_int 9007199254740991 * pow2 (- 1 - 52))"
    by (rule roundDouble_posI) (simp_all add: pow2_def tenth_def roundHalfEven_def Let_def)
  then show ?thesis by (simp add: jsPlus.simps pow2_def tenth_def)
qed

lemma plus_tenth_11: "jsPlus (Num (9007199254740991 / 9007199254740992)) (Num tenth) = Num (4953959590107545 / 4503599627370496)"
proof -
  have "roundDouble (9007199254740991 / 9007199254740992 + tenth) = Num (of_int 4953959590107545 * pow2 (0 - 52))"
    by (rule roundDouble_posI) (simp_all add: pow2_def tenth_def roundHalfEven_def Let_def)
  then show ?thesis by (simp add: jsPlus.simps pow2_def tenth_def)
qed

lemmas plus_tenth = plus_tenth_1 plus_tenth_2 plus_tenth_3 plus_tenth_4 plus_tenth_5 plus_tenth_6
  plus_tenth_7 plus_tenth_8 plus_tenth_9 plus_tenth_10 plus_tenth_11

lemma corrosion_steps:
  "jsPlus (Num 0) (Num tenth) = Num tenth"
  "jsPlus (Num tenth) (Num tenth) = Num (3602879701896397 / 18014398509481984)"
  "jsPlus (Num (3602879701896397 / 18014398509481984)) (Num tenth) = Num (1351079888211149 / 4503599627370496)"
  "jsPlus (Num afterNine) (Num tenth) = Num afterTen"
  "jsPlus (Num afterTen) (Num tenth) = Num afterEleven"
  unfolding afterNine_def afterTen_def afterEleven_def
  by (rule plus_tenth_1 plus_tenth_2 plus_tenth_3 plus_tenth_10 plus_tenth_11)+

lemma corrosionAfter_values:
  "corrosionAfter 1 = Num tenth"
  "corrosionAfter 2 = Num (3602879701896397 / 18014398509481984)"
  "corrosionAfter 3 = Num (1351079888211149 / 4503599627370496)"
  "corrosionAfter 9 = Num afterNine"
  "corrosionAfter 10 = Num afterTen"
  "corrosionAfter 11 = Num afterEleven"
  unfolding afterNine_def afterTen_def afterEleven_def
  by (simp_all add: numeral_eq_Suc plus_tenth)

lemmas corrosion_steps_unfolded = corrosion_steps [unfolded tenth_def afterNine_def afterTen_def afterEleven_def]

lemma threshold_values:
  "\<not> jsAtLeastOne (Num tenth)" "\<not> jsAtLeastOne (Num afterNine)" "\<not> jsAtLeastOne (Num afterTen)"
  "jsAtLeastOne (Num afterEleven)" "\<not> jsFalsy (Num tenth)" "\<not> jsFalsy (Num afterNine)"
  "\<not> jsFalsy (Num afterTen)"
  by (simp_all add: jsAtLeastOne_def jsFalsy_def tenth_def afterNine_def afterTen_def afterEleven_def)

text \<open>
  Claim C9, as amended. Each invocation of the acid+metal reaction on an acid particle and
  a metal particle adds 0.1 to the metal's corrosion accumulator, taken as 0 when the
  field is absent (or zero, or NaN); the addition is that of IEEE doubles, so the value
  stored is the double nearest to the sum. When the stored value is below 1 the reaction
  returns \<^verbatim>\<open>false\<close>, removes nothing and draws no random number: the only change to the
  engine is the metal's accumulator. When it is at least 1 the reaction returns
  \<^verbatim>\<open>true\<close> and removes the metal, and it also removes the acid exactly when the next
  random draw is below 0.3; no other cell changes.
\<close>

theorem C9_acid_metal_reaction:
  assumes "wf_engine e" "cellAt e mx my = Some m" "cellAt e ax ay = Some a" "(ax, ay) \<noteq> (mx, my)"
  shows "(\<not> jsAtLeastOne (nextCorrosion m) \<longrightarrow>
            acid_metal e ax ay mx my r =
              (False, setCell e mx my (Some (m\<lparr>corrosion := Some (nextCorrosion m)\<rparr>)), r)) \<and>
         (jsAtLeastOne (nextCorrosion m) \<longrightarrow>
            (case acid_metal e ax ay mx my r of
               (b, e', r') \<Rightarrow>
                  b \<and> r' = rtail r \<and> cellAt e' mx my = None \<and>
                  cellAt e' ax ay = (if rhead r < 3/10 then None else Some a) \<and>
                  (\<forall>x y. (x, y) \<noteq> (mx, my) \<and> (x, y) \<noteq> (ax, ay) \<longrightarrow> cellAt e' x y = cellAt e x y)))"
proof -
  let ?f1 = "\<lambda>p. if corrosionFalsy (corrosion p) then p\<lparr>corrosion := Some (Num 0)\<rparr> else p"
  let ?f2 = "\<lambda>p. p\<lparr>corrosion := map_option (\<lambda>c. jsPlus c (Num tenth)) (corrosion p)\<rparr>"
  let ?m2 = "m\<lparr>corrosion := Some (nextCorrosion m)\<rparr>"
  let ?e1 = "modifyCell e mx my ?f1"
  let ?e2 = "modifyCell ?e1 mx my ?f2"
  have ib: "\<not> outOfBounds e mx my" using assms(2) by (rule cellAt_Some_inBounds)
  have e1: "?e1 = setCell e mx my (Some (?f1 m))"
    using assms(2) by (rule modifyCell_Some)
  have c1: "cellAt ?e1 mx my = Some (?f1 m)"
    unfolding e1 using cellAt_setCell[OF assms(1) ib] by simp
  have m2: "?f2 (?f1 m) = ?m2"
    by (cases "corrosion m") (auto simp: nextCorrosion_def corrosionFalsy_def)
  have e2: "?e2 = setCell e mx my (Some ?m2)"
    using modifyCell_Some[OF c1, of ?f2] m2 setCell_twice[OF assms(1) ib]
    by (simp add: e1)
  have wf2: "wf_engine ?e2" unfolding e2 using assms(1) by (rule wf_setCell)
  have cell2: "\<And>x y. cellAt ?e2 x y = (if x = mx \<and> y = my then Some ?m2 else cellAt e x y)"
    unfolding e2 using cellAt_setCell[OF assms(1) ib] by simp
  have cor2: "corrosionAt ?e2 mx my = Some (nextCorrosion m)"
    by (simp add: corrosionAt_def cell2)
  let ?e3 = "snd (removeParticle ?e2 mx my)"
  have wf3: "wf_engine ?e3" using wf2 by (rule removeParticle_wf)
  have cell3: "\<And>x y. cellAt ?e3 x y = (if x = mx \<and> y = my then None else cellAt e x y)"
    using removeParticle_cellAt[OF wf2, of mx my] by (simp add: cell2)
  have cell4: "\<And>x y. cellAt (snd (removeParticle ?e3 ax ay)) x y =
                 (if (x = mx \<and> y = my) \<or> (x = ax \<and> y = ay) then None else cellAt e x y)"
    using removeParticle_cellAt[OF wf3, of ax ay] by (simp add: cell3)
  have low: "\<not> jsAtLeastOne (nextCorrosion m) \<longrightarrow>
            acid_metal e ax ay mx my r = (False, setCell e mx my (Some ?m2), r)"
    using cor2 e2 by (simp add: acid_metal_def Let_def)
  have high: "jsAtLeastOne (nextCorrosion m) \<longrightarrow>
            (case acid_metal e ax ay mx my r of
               (b, e', r') \<Rightarrow>
                  b \<and> r' = rtail r \<and> cellAt e' mx my = None \<and>
                  cellAt e' ax ay = (if rhead r < 3/10 then None else Some a) \<and>
                  (\<forall>x y. (x, y) \<noteq> (mx, my) \<and> (x, y) \<noteq> (ax, ay) \<longrightarrow> cellAt e' x y = cellAt e x y))"
    using cor2 assms(3,4) by (auto simp: acid_metal_def Let_def cell3 cell4)
  from low high show ?thesis by blast
qed

text \<open>The theorem at a metal first touched, at a metal that nine invocations have touched
  (the tenth stores 0.9999999999999999 and removes nothing) and at a metal that ten have
  touched (the eleventh removes it, and the acid with it when the draw is low).\<close>

theorem C9_acid_metal_reaction_witness:
  "wf_engine acidMetalEngine \<and>
   cellAt acidMetalEngine 1 0 = Some (plainParticle ''metal'' 1 0) \<and>
   cellAt acidMetalEngine 0 0 = Some (plainParticle ''acid'' 0 0) \<and>
   \<not> jsAtLeastOne (nextCorrosion (plainParticle ''metal'' 1 0)) \<and>
   acid_metal acidMetalEngine 0 0 1 0 halfRnd =
     (False, setCell acidMetalEngine 1 0 (Some ((plainParticle ''metal'' 1 0)\<lparr>corrosion := Some (Num tenth)\<rparr>)),
      halfRnd) \<and>
   corrosionAfter 9 = Num afterNine \<and>
   wf_engine (corrodedMetalEngine afterNine) \<and>
   acid_metal (corrodedMetalEngine afterNine) 0 0 1 0 halfRnd =
     (False,
      setCell (corrodedMetalEngine afterNine) 1 0
        (Some ((plainParticle ''metal'' 1 0)\<lparr>corrosion := Some (Num afterTen)\<rparr>)),
      halfRnd) \<and>
   afterTen < 1 \<and>
   wf_engine (corrodedMetalEngine afterTen) \<and>
   jsAtLeastOne (nextCorrosion ((plainParticle ''metal'' 1 0)\<lparr>corrosion := Some (Num afterTen)\<rparr>)) \<and>
   (case acid_metal (corrodedMetalEngine afterTen) 0 0 1 0 halfRnd of
      (b, e', r') \<Rightarrow> b \<and> cellAt e' 1 0 = None \<and> cellAt e' 0 0 = Some (plainParticle ''acid'' 0 0)) \<and>
   (case acid_metal (corrodedMetalEngine afterTen) 0 0 1 0 lowRnd of
      (b, e', r') \<Rightarrow> b \<and> cellAt e' 1 0 = None \<and> cellAt e' 0 0 = None)"
proof -
  have w1: "wf_engine acidMetalEngine"
    by (simp add: wf_engine_def acidMetalEngine_def newEngine_def)
  have m1: "cellAt acidMetalEngine 1 0 = Some (plainParticle ''metal'' 1 0)"
    by (simp add: cellAt_def outOfBounds_def acidMetalEngine_def newEngine_def)
  have a1: "cellAt acidMetalEngine 0 0 = Some (plainParticle ''acid'' 0 0)"
    by (simp add: cellAt_def outOfBounds_def acidMetalEngine_def newEngine_def)
  have n1: "nextCorrosion (plainParticle ''metal'' 1 0) = Num tenth"
    by (simp add: nextCorrosion_def plainParticle_def corrosion_steps)
  have w2: "wf_engine (corrodedMetalEngine c)" for c
    by (simp add: wf_engine_def corrodedMetalEngine_def newEngine_def)
  have m2: "cellAt (corrodedMetalEngine c) 1 0 = Some ((plainParticle ''metal'' 1 0)\<lparr>corrosion := Some (Num c)\<rparr>)" for c
    by (simp add: cellAt_def outOfBounds_def corrodedMetalEngine_def newEngine_def)
  have a2: "cellAt (corrodedMetalEngine c) 0 0 = Some (plainParticle ''acid'' 0 0)" for c
    by (simp add: cellAt_def outOfBounds_def corrodedMetalEngine_def newEngine_def)
  have n9: "nextCorrosion ((plainParticle ''metal'' 1 0)\<lparr>corrosion := Some (Num afterNine)\<rparr>) = Num afterTen"
    by (simp add: nextCorrosion_def plainParticle_def corrosion_steps threshold_values)
  have n10: "nextCorrosion ((plainParticle ''metal'' 1 0)\<lparr>corrosion := Some (Num afterTen)\<rparr>) = Num afterEleven"
    by (simp add: nextCorrosion_def plainParticle_def corrosion_steps threshold_values)
  have lt: "afterTen < 1" by (simp add: afterTen_def)
  have ne: "((0::int), (0::int)) \<noteq> (1, 0)" by simp
  from C9_acid_metal_reaction[OF w1 m1 a1 ne, of halfRnd] n1
  have r1: "acid_metal acidMetalEngine 0 0 1 0 halfRnd =
     (False, setCell acidMetalEngine 1 0 (Some ((plainParticle ''metal'' 1 0)\<lparr>corrosion := Some (Num tenth)\<rparr>)),
      halfRnd)" by (simp add: threshold_values)
  from C9_acid_metal_reaction[OF w2 m2 a2 ne, of afterNine halfRnd] n9
  have r9: "acid_metal (corrodedMetalEngine afterNine) 0 0 1 0 halfRnd =
     (False,
      setCell (corrodedMetalEngine afterNine) 1 0
        (Some ((plainParticle ''metal'' 1 0)\<lparr>corrosion := Some (Num afterTen)\<rparr>)),
      halfRnd)" by (simp add: threshold_values plainParticle_def)
  from C9_acid_metal_reaction[OF w2 m2 a2 ne, of afterTen halfRnd] n10
  have r2: "(case acid_metal (corrodedMetalEngine afterTen) 0 0 1 0 halfRnd of
      (b, e', r') \<Rightarrow> b \<and> cellAt e' 1 0 = None \<and> cellAt e' 0 0 = Some (plainParticle ''acid'' 0 0))"
    by (simp add: rhead_halfRnd threshold_values split: prod.splits)
  from C9_acid_metal_reaction[OF w2 m2 a2 ne, of afterTen lowRnd] n10
  have r3: "(case acid_metal (corrodedMetalEngine afterTen) 0 0 1 0 lowRnd of
      (b, e', r') \<Rightarrow> b \<and> cellAt e' 1 0 = None \<and> cellAt e' 0 0 = None)"
    by (simp add: rhead_lowRnd threshold_values split: prod.splits)
  from w1 m1 a1 n1 r1 w2 n10 r9 lt r2 r3 corrosionAfter_values(4) show ?thesis
    by (simp add: threshold_values)
qed

text \<open>
  Claim C9 as stated is about ticks, and a tick is not an invocation. In one tick over a
  grid with an acid particle beside a metal particle the reaction runs twice for that
  metal, once from the neighbour scan of the acid and once from the neighbour scan of the
  metal (the resolver tries the key of a pair in both orders): the accumulator goes from
  absent to 0.2. And in a tick whose draws are low, the acid's own behaviour, which runs
  after the reaction has returned \<^verbatim>\<open>false\<close>, dissolves the metal at once, with its
  accumulator at 0.1.
\<close>

theorem C9_tick_counterexample:
  "corrosionAt acidMetalEngine 1 0 = None \<and>
   corrosionAt (fst (snd (update keepOrder acidMetalEngine halfRnd))) 1 0 =
     Some (Num (3602879701896397 / 18014398509481984)) \<and>
   corrosionAt (fst (snd (update keepOrder acidMetalEngine halfRnd))) 1 0 \<noteq> Some (Num tenth) \<and>
   cellAt (fst (snd (update keepOrder acidMetalEngine lowRnd))) 1 0 = None"
  by (simp add: acidMetalEngine_def plainParticle_def sched_defs react_defs acid_defs eval_defs
        rhead_lowRnd rtail_lowRnd corrosionFalsy_def jsFalsy_def jsAtLeastOne_def
        corrosion_steps corrosion_steps_unfolded tenth_def Let_def)







section \<open>Where the code departs from its own intent\<close>

lemma moveParticle_occupied:
  "cellAt e toX toY \<noteq> None \<Longrightarrow> moveParticle e fromX fromY toX toY = (False, e)"
  by (auto simp: moveParticle_def split: option.splits)


lemmas beh_defs = spark_update_def initLife_def lifeTruthy_def lifeAt_def decrLife_def
  lifeExpired_def modifyCell_def sparkLifespanMin_def sparkLifespanMax_def randomElement_def
  randomIndex_def


text \<open>
  Claim C3 (not what the code does). The spark collects its conductive neighbours among
  the occupied cells around it, and jumps with \<^verbatim>\<open>moveParticle\<close>, which moves a particle
  only into an empty cell. A spark with life 10 beside a metal particle, with every draw
  1/2: the metal is the one conductive neighbour, the draw is below 0.7, the behaviour
  returns \<^verbatim>\<open>true\<close>, and the spark is still in its cell, with its life one lower; the
  metal's cell still holds the metal.
\<close>

theorem C3_spark_does_not_jump:
  "fst (sparkLoop (decrLife sparkMetalEngine 0 0) 0 0 offsets9 [] halfRnd) = [(1, 0)] \<and>
   rhead halfRnd < 7/10 \<and>
   spark_update sparkMetalEngine 0 0 halfRnd =
     (True, setCell sparkMetalEngine 0 0 (Some ((plainParticle ''spark'' 0 0)\<lparr>life := Some 9\<rparr>)), halfRnd) \<and>
   cellAt (fst (snd (spark_update sparkMetalEngine 0 0 halfRnd))) 0 0 =
     Some ((plainParticle ''spark'' 0 0)\<lparr>life := Some 9\<rparr>) \<and>
   cellAt (fst (snd (spark_update sparkMetalEngine 0 0 halfRnd))) 1 0 = Some (plainParticle ''metal'' 1 0)"
  by (simp add: beh_defs sparkMetalEngine_def plainParticle_def offsets9_def eval_defs Let_def)

text \<open>For a type that the lookup does not find, creation and type change fail and return
  the engine as it was.\<close>

lemma unknown_type_rejected:
  "ELEMENTS t = None \<Longrightarrow>
     Particles_createParticle t x y r = (None, r) \<and>
     createParticle e x y t r = (False, e, r) \<and>
     changeParticleType e x y t r = (False, e, r)"
  by (simp add: Particles_createParticle_def createParticle_def changeParticleType_def)

text \<open>
  Claim C7 (not what the code does). \<^verbatim>\<open>constructor\<close> is not an element of the registry,
  but the lookup \<^verbatim>\<open>ELEMENTS['constructor']\<close> finds the property every object inherits,
  which is truthy: the factory builds a particle of type \<^verbatim>\<open>constructor\<close>,
  \<^verbatim>\<open>createParticle\<close> stores it and returns \<^verbatim>\<open>true\<close>, and \<^verbatim>\<open>changeParticleType\<close> replaces a
  sand particle by one and returns \<^verbatim>\<open>true\<close>.
\<close>

theorem C7_inherited_property_accepted:
  "map_of elementTable ''constructor'' = None \<and>
   fst (Particles_createParticle ''constructor'' 0 0 halfRnd) \<noteq> None \<and>
   fst (createParticle (newEngine 2 2) 0 0 ''constructor'' halfRnd) \<and>
   cellAt (newEngine 2 2) 0 0 = None \<and>
   map_option ptype (cellAt (fst (snd (createParticle (newEngine 2 2) 0 0 ''constructor'' halfRnd))) 0 0)
     = Some ''constructor'' \<and>
   fst (changeParticleType sandEngine 0 0 ''constructor'' halfRnd) \<and>
   map_option ptype (cellAt sandEngine 0 0) = Some ''sand'' \<and>
   map_option ptype (cellAt (fst (snd (changeParticleType sandEngine 0 0 ''constructor'' halfRnd))) 0 0)
     = Some ''constructor''"
  by (simp add: sandEngine_def plainParticle_def eval_defs)

text \<open>When no restore has just happened, the bookkeeping records the state: the new top
  of the undo stack is the state before the operation, the stack holds at most
  \<^verbatim>\<open>maxUndoSteps\<close> entries when it did before, and the redo stack is empty.\<close>

lemma saveUndoState_records:
  "\<not> skipNextUndo e \<Longrightarrow> 0 < maxUndoSteps e \<Longrightarrow> length (undoStack e) \<le> maxUndoSteps e \<Longrightarrow>
     last (undoStack (saveUndoState e)) = exportCompressedState e \<and>
     length (undoStack (saveUndoState e)) \<le> maxUndoSteps e \<and>
     (length (undoStack e) = maxUndoSteps e \<longrightarrow>
        undoStack (saveUndoState e) = tl (undoStack e) @ [exportCompressedState e]) \<and>
     redoStack (saveUndoState e) = []"
  by (cases "undoStack e") (auto simp: saveUndoState_def Let_def)

text \<open>
  Claim C2 (not what the code does). \<^verbatim>\<open>undo\<close> and \<^verbatim>\<open>redo\<close> set \<^verbatim>\<open>_skipNextUndo\<close> before
  they call \<^verbatim>\<open>importCompressedState\<close>, but the import never calls \<^verbatim>\<open>_saveUndoState\<close>,
  so the flag is still set when they return, and it is the next drawing operation that
  consumes it. On an empty 2x2 grid: draw a wall at (0,0), undo, draw a wall at (1,1).
  The second drawing creates a particle, pushes nothing onto the undo stack and leaves
  the redo stack as the undo left it.
\<close>

theorem C2_draw_after_undo_not_recorded:
  "(case drawElements (newEngine 2 2) ''wall'' [(0, 0)] halfRnd of
      (n1, e1, r1) \<Rightarrow>
        (case undo e1 of
           Inl err \<Rightarrow> False
         | Inr (undone, e2) \<Rightarrow>
             (case drawElements e2 ''wall'' [(1, 1)] halfRnd of
                (n3, e3, r3) \<Rightarrow>
                   length (undoStack e1) = 1 \<and> undone \<and> skipNextUndo e2 \<and>
                   undoStack e2 = [] \<and> length (redoStack e2) = 1 \<and> cellAt e2 1 1 = None \<and>
                   n3 = 1 \<and> cellAt e3 1 1 \<noteq> None \<and>
                   undoStack e3 = [] \<and> redoStack e3 = redoStack e2 \<and> redoStack e3 \<noteq> [])))"
  by (simp add: drawElements_def drawPoint_def saveUndoState_def undo_def
        exportCompressedState_def exportCell_def snapOf_def importCompressedState_def
        importParticle_def restoreParticle_def createGrid_def upt_small eval_defs Let_def)
end
